theory Spec2Isabelle
  imports Complex_Main "HOL-Library.Sublist"
begin

section \<open>JavaScript values\<close>

text \<open>
  The services exchange plain JSON data with the browser stores and with the
  text-generation endpoint. A value is what \<^verbatim>\<open>JSON.parse\<close> can return: \<^verbatim>\<open>null\<close>, a
  boolean, a number, a string, an array or an object. A number \<open>JNum m k\<close> is the decimal
  \<open>m / 10 ^ k\<close>, kept canonical (no trailing zero after the point); binary rounding of
  doubles is not modelled. Strings are lists of 8-bit characters. An object is the list
  of its properties in creation order; a property that is absent reads as
  \<^verbatim>\<open>undefined\<close>, which is \<open>None\<close> below.
\<close>

datatype jsval =
    JNull
  | JBool bool
  | JNum int nat
  | JStr string
  | JArr "jsval list"
  | JObj "(string \<times> jsval) list"

text \<open>\<^verbatim>\<open>if (v)\<close>, \<^verbatim>\<open>v || d\<close>, \<^verbatim>\<open>v && w\<close>: the falsy values are \<^verbatim>\<open>null\<close>, \<^verbatim>\<open>false\<close>, \<^verbatim>\<open>0\<close> and \<^verbatim>\<open>""\<close>.\<close>

fun truthy :: "jsval \<Rightarrow> bool" where
  "truthy JNull = False"
| "truthy (JBool b) = b"
| "truthy (JNum m k) = (m \<noteq> 0)"
| "truthy (JStr s) = (s \<noteq> [])"
| "truthy (JArr vs) = True"
| "truthy (JObj kvs) = True"

text \<open>Property read \<^verbatim>\<open>v.key\<close> on a value that is not \<^verbatim>\<open>null\<close>: only objects carry the
  data properties the services read, every other value gives \<^verbatim>\<open>undefined\<close>.\<close>

fun getProp :: "jsval \<Rightarrow> string \<Rightarrow> jsval option" where
  "getProp (JObj kvs) key = map_of kvs key"
| "getProp v key = None"

text \<open>Assignment \<^verbatim>\<open>o[key] = v\<close>: an existing property keeps its place, a new one is
  appended.\<close>

fun setProp :: "string \<Rightarrow> jsval \<Rightarrow> (string \<times> jsval) list \<Rightarrow> (string \<times> jsval) list" where
  "setProp key v [] = [(key, v)]"
| "setProp key v ((k, w) # kvs) = (if k = key then (k, v) # kvs else (k, w) # setProp key v kvs)"

subsection \<open>Characters and digits\<close>

definition isDigit :: "char \<Rightarrow> bool" where
  "isDigit c = (48 \<le> (of_char c :: nat) \<and> (of_char c :: nat) \<le> 57)"

definition digitVal :: "char \<Rightarrow> nat" where
  "digitVal c = of_char c - 48"

definition digitChar :: "nat \<Rightarrow> char" where
  "digitChar d = char_of (48 + d)"

fun showNat :: "nat \<Rightarrow> string" where
  "showNat n = (if n < 10 then [digitChar n] else showNat (n div 10) @ [digitChar (n mod 10)])"

declare showNat.simps [simp del]

definition readNat :: "string \<Rightarrow> nat" where
  "readNat ds = foldl (\<lambda>a c. 10 * a + digitVal c) 0 ds"

text \<open>The \<open>k\<close> digits of \<open>r\<close> after the decimal point, zero-padded on the left.\<close>

fun showFrac :: "nat \<Rightarrow> nat \<Rightarrow> string" where
  "showFrac 0 r = []"
| "showFrac (Suc k) r = showFrac k (r div 10) @ [digitChar (r mod 10)]"

definition isHex :: "char \<Rightarrow> bool" where
  "isHex c = (isDigit c \<or> (97 \<le> (of_char c :: nat) \<and> (of_char c :: nat) \<le> 102)
              \<or> (65 \<le> (of_char c :: nat) \<and> (of_char c :: nat) \<le> 70))"

definition hexVal :: "char \<Rightarrow> nat" where
  "hexVal c = (if isDigit c then digitVal c
               else if 97 \<le> (of_char c :: nat) then of_char c - 87 else of_char c - 55)"

definition hexChar :: "nat \<Rightarrow> char" where
  "hexChar d = (if d < 10 then digitChar d else char_of (87 + d))"

text \<open>White space of the JSON grammar: space, tab, line feed, carriage return.\<close>

definition isJsonWs :: "char \<Rightarrow> bool" where
  "isJsonWs c = (c = CHR '' '' \<or> c = CHR 0x09 \<or> c = CHR 0x0A \<or> c = CHR 0x0D)"

definition skipWs :: "string \<Rightarrow> string" where
  "skipWs s = dropWhile isJsonWs s"

subsection \<open>\<^verbatim>\<open>JSON.stringify\<close>\<close>

text \<open>
  The serialiser of the runtime, without indentation: strings are quoted with the quote,
  the backslash and the control characters escaped; a number is printed in plain decimal
  notation; arrays and objects are printed in order with no white space.
\<close>

definition escChar :: "char \<Rightarrow> string" where
  "escChar c =
     (if c = CHR 0x22 then [CHR 0x5C, CHR 0x22]
      else if c = CHR 0x5C then [CHR 0x5C, CHR 0x5C]
      else if c = CHR 0x08 then [CHR 0x5C, CHR ''b'']
      else if c = CHR 0x0C then [CHR 0x5C, CHR ''f'']
      else if c = CHR 0x0A then [CHR 0x5C, CHR ''n'']
      else if c = CHR 0x0D then [CHR 0x5C, CHR ''r'']
      else if c = CHR 0x09 then [CHR 0x5C, CHR ''t'']
      else if (of_char c :: nat) < 32
        then [CHR 0x5C, CHR ''u'', CHR ''0'', CHR ''0'',
              hexChar ((of_char c :: nat) div 16), hexChar ((of_char c :: nat) mod 16)]
      else [c])"

definition quoteStr :: "string \<Rightarrow> string" where
  "quoteStr s = CHR 0x22 # concat (map escChar s) @ [CHR 0x22]"

definition showNum :: "int \<Rightarrow> nat \<Rightarrow> string" where
  "showNum m k =
     (let a = nat \<bar>m\<bar> in
      (if m < 0 then ''-'' else []) @
      (if k = 0 then showNat a
       else showNat (a div 10 ^ k) @ ''.'' @ showFrac k (a mod 10 ^ k)))"

fun JSON_stringify :: "jsval \<Rightarrow> string"
  and showElems :: "jsval list \<Rightarrow> string"
  and showMembers :: "(string \<times> jsval) list \<Rightarrow> string" where
  "JSON_stringify JNull = ''null''"
| "JSON_stringify (JBool b) = (if b then ''true'' else ''false'')"
| "JSON_stringify (JNum m k) = showNum m k"
| "JSON_stringify (JStr s) = quoteStr s"
| "JSON_stringify (JArr vs) = CHR ''['' # showElems vs"
| "JSON_stringify (JObj kvs) = CHR ''{'' # showMembers kvs"
| "showElems [] = '']''"
| "showElems (v # vs) =
     JSON_stringify v @ (if vs = [] then '']'' else CHR '','' # showElems vs)"
| "showMembers [] = ''}''"
| "showMembers ((k, v) # kvs) =
     quoteStr k @ CHR '':'' # JSON_stringify v @
     (if kvs = [] then ''}'' else CHR '','' # showMembers kvs)"

subsection \<open>\<^verbatim>\<open>JSON.parse\<close>\<close>

text \<open>
  A recursive-descent reader of the JSON grammar. Every reader returns the value read and
  the text left over, or \<open>None\<close> where the runtime throws \<^verbatim>\<open>SyntaxError\<close>.
\<close>

definition unescape :: "char \<Rightarrow> char option" where
  "unescape e =
     (if e = CHR 0x22 then Some (CHR 0x22)
      else if e = CHR 0x5C then Some (CHR 0x5C)
      else if e = CHR ''/'' then Some (CHR ''/'')
      else if e = CHR ''b'' then Some (CHR 0x08)
      else if e = CHR ''f'' then Some (CHR 0x0C)
      else if e = CHR ''n'' then Some (CHR 0x0A)
      else if e = CHR ''r'' then Some (CHR 0x0D)
      else if e = CHR ''t'' then Some (CHR 0x09)
      else None)"

text \<open>The body of a string literal, after its opening quote. A \<^verbatim>\<open>\uXXXX\<close> escape is
  kept modulo 256, the width of a character here.\<close>

fun pstr :: "string \<Rightarrow> (string \<times> string) option" where
  "pstr [] = None"
| "pstr (c # cs) =
     (if c = CHR 0x22 then Some ([], cs)
      else if c = CHR 0x5C then
        (case cs of
           [] \<Rightarrow> None
         | e # r \<Rightarrow>
            if e = CHR ''u'' then
              (case r of
                 h1 # h2 # h3 # h4 # r' \<Rightarrow>
                   if isHex h1 \<and> isHex h2 \<and> isHex h3 \<and> isHex h4 then
                     (case pstr r' of
                        None \<Rightarrow> None
                      | Some (s, rest) \<Rightarrow>
                          Some (char_of (4096 * hexVal h1 + 256 * hexVal h2
                                          + 16 * hexVal h3 + hexVal h4) # s, rest))
                   else None
               | _ \<Rightarrow> None)
            else
              (case unescape e of
                 None \<Rightarrow> None
               | Some d \<Rightarrow>
                  (case pstr r of None \<Rightarrow> None | Some (s, rest) \<Rightarrow> Some (d # s, rest))))
      else if (of_char c :: nat) < 32 then None
      else (case pstr cs of None \<Rightarrow> None | Some (s, rest) \<Rightarrow> Some (c # s, rest)))"

declare pstr.simps [simp del]

text \<open>Strip trailing zeros after the decimal point.\<close>

fun canon :: "int \<Rightarrow> nat \<Rightarrow> jsval" where
  "canon m 0 = JNum m 0"
| "canon m (Suc k) = (if m mod 10 = 0 then canon (m div 10) k else JNum m (Suc k))"

text \<open>The number \<open>\<plusminus> mant \<times> 10 ^ (e - f)\<close> read from a literal with \<open>f\<close> fraction digits
  and exponent \<open>e\<close>.\<close>

definition mkNum :: "bool \<Rightarrow> nat \<Rightarrow> nat \<Rightarrow> int \<Rightarrow> jsval" where
  "mkNum neg mant f e =
     (let m = (if neg then - int mant else int mant) in
      if int f \<le> e then JNum (m * 10 ^ nat (e - int f)) 0
      else canon m (nat (int f - e)))"

definition pexp :: "string \<Rightarrow> (int \<times> string) option" where
  "pexp s =
     (case s of
        [] \<Rightarrow> Some (0, s)
      | c # r \<Rightarrow>
          if c = CHR ''e'' \<or> c = CHR ''E'' then
            (let (neg, r1) =
               (case r of
                  [] \<Rightarrow> (False, r)
                | d # r' \<Rightarrow> if d = CHR ''-'' then (True, r')
                            else if d = CHR ''+'' then (False, r') else (False, r));
                 ds = takeWhile isDigit r1
             in if ds = [] then None
                else Some ((if neg then - int (readNat ds) else int (readNat ds)),
                           dropWhile isDigit r1))
          else Some (0, s))"

definition pfrac :: "string \<Rightarrow> (string \<times> string) option" where
  "pfrac s =
     (case s of
        [] \<Rightarrow> Some ([], s)
      | c # r \<Rightarrow>
          if c = CHR ''.'' then
            (let ds = takeWhile isDigit r
             in if ds = [] then None else Some (ds, dropWhile isDigit r))
          else Some ([], s))"

definition pint :: "string \<Rightarrow> (string \<times> string) option" where
  "pint s =
     (case s of
        [] \<Rightarrow> None
      | c # r \<Rightarrow>
          if c = CHR ''0'' then Some (''0'', r)
          else if isDigit c then Some (takeWhile isDigit s, dropWhile isDigit s)
          else None)"

definition pnum :: "string \<Rightarrow> (jsval \<times> string) option" where
  "pnum s =
     (let (neg, s1) =
        (case s of [] \<Rightarrow> (False, s) | c # r \<Rightarrow> if c = CHR ''-'' then (True, r) else (False, s))
      in case pint s1 of
           None \<Rightarrow> None
         | Some (ids, s2) \<Rightarrow>
            (case pfrac s2 of
               None \<Rightarrow> None
             | Some (fds, s3) \<Rightarrow>
                (case pexp s3 of
                   None \<Rightarrow> None
                 | Some (e, s4) \<Rightarrow>
                     Some (mkNum neg (readNat (ids @ fds)) (length fds) e, s4))))"

text \<open>Duplicate names in an object literal: the last value wins, at the place of the
  first.\<close>

definition mkObj :: "(string \<times> jsval) list \<Rightarrow> jsval" where
  "mkObj kvs = JObj (foldl (\<lambda>ob (k, v). setProp k v ob) [] kvs)"

text \<open>
  The readers of values, array elements and object members call each other; the first
  argument bounds the number of nested calls. \<open>JSON_parse\<close> starts with more than twice
  the length of the text, which no text exhausts: a nested call costs one unit and goes
  with a character read (lemma \<open>pval_fuel\<close> below: more fuel changes nothing).
\<close>

fun pval :: "nat \<Rightarrow> string \<Rightarrow> (jsval \<times> string) option"
  and pelems :: "nat \<Rightarrow> string \<Rightarrow> (jsval list \<times> string) option"
  and pmembers :: "nat \<Rightarrow> string \<Rightarrow> ((string \<times> jsval) list \<times> string) option" where
  "pval 0 s = None"
| "pval (Suc n) s =
     (case skipWs s of
        [] \<Rightarrow> None
      | c # cs \<Rightarrow>
          if c = CHR ''{'' then
            (case skipWs cs of
               [] \<Rightarrow> None
             | d # r \<Rightarrow>
                 if d = CHR ''}'' then Some (JObj [], r)
                 else (case pmembers n cs of
                         None \<Rightarrow> None
                       | Some (kvs, rest) \<Rightarrow> Some (mkObj kvs, rest)))
          else if c = CHR ''['' then
            (case skipWs cs of
               [] \<Rightarrow> None
             | d # r \<Rightarrow>
                 if d = CHR '']'' then Some (JArr [], r)
                 else (case pelems n cs of
                         None \<Rightarrow> None
                       | Some (vs, rest) \<Rightarrow> Some (JArr vs, rest)))
          else if c = CHR 0x22 then
            (case pstr cs of None \<Rightarrow> None | Some (str, rest) \<Rightarrow> Some (JStr str, rest))
          else if take 4 (c # cs) = ''true'' then Some (JBool True, drop 4 (c # cs))
          else if take 5 (c # cs) = ''false'' then Some (JBool False, drop 5 (c # cs))
          else if take 4 (c # cs) = ''null'' then Some (JNull, drop 4 (c # cs))
          else pnum (c # cs))"
| "pelems 0 s = None"
| "pelems (Suc n) s =
     (case pval n s of
        None \<Rightarrow> None
      | Some (v, r) \<Rightarrow>
         (case skipWs r of
            [] \<Rightarrow> None
          | c # r' \<Rightarrow>
              if c = CHR '','' then
                (case pelems n r' of None \<Rightarrow> None | Some (vs, rest) \<Rightarrow> Some (v # vs, rest))
              else if c = CHR '']'' then Some ([v], r')
              else None))"
| "pmembers 0 s = None"
| "pmembers (Suc n) s =
     (case skipWs s of
        [] \<Rightarrow> None
      | q # cs \<Rightarrow>
          if q = CHR 0x22 then
            (case pstr cs of
               None \<Rightarrow> None
             | Some (k, r) \<Rightarrow>
                (case skipWs r of
                   [] \<Rightarrow> None
                 | c # r1 \<Rightarrow>
                     if c = CHR '':'' then
                       (case pval n r1 of
                          None \<Rightarrow> None
                        | Some (v, r2) \<Rightarrow>
                           (case skipWs r2 of
                              [] \<Rightarrow> None
                            | d # r3 \<Rightarrow>
                                if d = CHR '','' then
                                  (case pmembers n r3 of
                                     None \<Rightarrow> None
                                   | Some (kvs, rest) \<Rightarrow> Some ((k, v) # kvs, rest))
                                else if d = CHR ''}'' then Some ([(k, v)], r3)
                                else None))
                     else None))
          else None)"

definition JSON_parse :: "string \<Rightarrow> jsval option" where
  "JSON_parse s =
     (case pval (Suc (2 * length s)) s of
        None \<Rightarrow> None
      | Some (v, rest) \<Rightarrow> if skipWs rest = [] then Some v else None)"

subsection \<open>Strings of the runtime\<close>

text \<open>White space of \<^verbatim>\<open>String.prototype.trim\<close> and of the regular-expression class
  \<^verbatim>\<open>\s\<close>, within the 8-bit characters: tab, line feed, vertical tab, form feed, carriage
  return, space and no-break space.\<close>

definition isJsWs :: "char \<Rightarrow> bool" where
  "isJsWs c = ((9 \<le> (of_char c :: nat) \<and> (of_char c :: nat) \<le> 13)
               \<or> (of_char c :: nat) = 32 \<or> (of_char c :: nat) = 160)"

definition trim :: "string \<Rightarrow> string" where
  "trim s = rev (dropWhile isJsWs (rev (dropWhile isJsWs s)))"

definition lowerChar :: "char \<Rightarrow> char" where
  "lowerChar c =
     (let n = (of_char c :: nat) in
      if (65 \<le> n \<and> n \<le> 90) \<or> (192 \<le> n \<and> n \<le> 222 \<and> n \<noteq> 215) then char_of (n + 32) else c)"

definition toLowerCase :: "string \<Rightarrow> string" where
  "toLowerCase s = map lowerChar s"

text \<open>\<^verbatim>\<open>s.includes(k)\<close>: \<open>k\<close> occurs in \<open>s\<close> as a contiguous substring.\<close>

fun includesStr :: "string \<Rightarrow> string \<Rightarrow> bool" where
  "includesStr [] k = (k = [])"
| "includesStr (c # cs) k = (prefix k (c # cs) \<or> includesStr cs k)"

text \<open>\<^verbatim>\<open>xs.join(sep)\<close> on strings.\<close>

fun join :: "string \<Rightarrow> string list \<Rightarrow> string" where
  "join sep [] = []"
| "join sep [x] = x"
| "join sep (x # y # ys) = x @ sep @ join sep (y # ys)"

text \<open>\<^verbatim>\<open>String(v)\<close>, and the text an array element contributes to \<^verbatim>\<open>join\<close> (where
  \<^verbatim>\<open>null\<close> gives the empty string).\<close>

fun jsToString :: "jsval \<Rightarrow> string"
  and elemToString :: "jsval \<Rightarrow> string"
  and elemsToString :: "jsval list \<Rightarrow> string" where
  "jsToString JNull = ''null''"
| "jsToString (JBool b) = (if b then ''true'' else ''false'')"
| "jsToString (JNum m k) = showNum m k"
| "jsToString (JStr s) = s"
| "jsToString (JArr vs) = elemsToString vs"
| "jsToString (JObj kvs) = ''[object Object]''"
| "elemToString v = (if v = JNull then [] else jsToString v)"
| "elemsToString [] = []"
| "elemsToString (v # vs) = elemToString v @ (if vs = [] then [] else CHR '','' # elemsToString vs)"

text \<open>\<^verbatim>\<open>text.match(/\{[\s\S]*\}/)\<close>: the text from the first opening brace to the last
  closing brace after it, when there is one.\<close>

definition braceMatch :: "string \<Rightarrow> string option" where
  "braceMatch text =
     (case dropWhile (\<lambda>c. c \<noteq> CHR ''{'') text of
        [] \<Rightarrow> None
      | b # body \<Rightarrow>
          if CHR ''}'' \<in> set body
          then Some (b # rev (dropWhile (\<lambda>c. c \<noteq> CHR ''}'') (rev body)))
          else None)"

text \<open>\<^verbatim>\<open>s.replace(/<[^>]*>/g, " ")\<close>: every tag, from an opening angle bracket to the next
  closing one, becomes a space.\<close>

function stripTags :: "string \<Rightarrow> string" where
  "stripTags [] = []"
| "stripTags (c # cs) =
     (if c = CHR ''<'' \<and> CHR ''>'' \<in> set cs
      then CHR '' '' # stripTags (tl (dropWhile (\<lambda>x. x \<noteq> CHR ''>'') cs))
      else c # stripTags cs)"
  by pat_completeness auto
termination
  by (relation "measure length")
     (auto simp: less_Suc_eq_le intro: le_trans [OF diff_le_self length_dropWhile_le])

text \<open>\<^verbatim>\<open>s.replace(/\s+/g, " ")\<close>: every run of white space becomes one space.\<close>

function collapseWs :: "string \<Rightarrow> string" where
  "collapseWs [] = []"
| "collapseWs (c # cs) =
     (if isJsWs c then CHR '' '' # collapseWs (dropWhile isJsWs cs) else c # collapseWs cs)"
  by pat_completeness auto
termination
  by (relation "measure length") (auto simp: less_Suc_eq_le length_dropWhile_le)

section \<open>Browser storage (client/utils/storage.ts)\<close>

text \<open>
  Two stores exist. \<^verbatim>\<open>localStorage\<close> maps keys to strings and is always there.
  \<^verbatim>\<open>chrome.storage.sync\<close> maps keys to JSON values and is there only inside the
  extension: the global \<^verbatim>\<open>chrome\<close> may be undefined, or lack \<^verbatim>\<open>storage\<close>, or lack
  \<^verbatim>\<open>storage.sync\<close>. An operation of the synchronized store may fail, which it reports
  in \<^verbatim>\<open>chrome.runtime.lastError\<close>; whether the next \<^verbatim>\<open>get\<close>, \<^verbatim>\<open>set\<close> or \<^verbatim>\<open>remove\<close>
  fails is part of the state. A failed operation changes nothing.
\<close>

datatype error = LastError | TypeError | SyntaxError | ReferenceError | EndpointFailure | Error string

text \<open>How an asynchronous call ends: its promise resolves with a value, rejects with an
  error, or stays pending for ever.\<close>

datatype 'a outcome = Resolved 'a | Rejected error | Pending

record sync_area =
  items :: "string \<rightharpoonup> jsval"
  getFails :: bool
  setFails :: bool
  removeFails :: bool

datatype chrome_global = NoChrome | NoStorageApi | NoSyncArea | SyncArea sync_area

text \<open>The calls made on the two stores, in order.\<close>

datatype call =
    SyncGet "string list"
  | SyncSet "(string \<times> jsval) list"
  | SyncRemove "string list"
  | LocalGet string
  | LocalSet string string
  | LocalRemove string

record env =
  chrome :: chrome_global
  localStorage :: "string \<rightharpoonup> string"
  calls :: "call list"

text \<open>\<^verbatim>\<open>typeof chrome !== "undefined" && chrome.storage\<close>\<close>

definition hasStorageApi :: "env \<Rightarrow> bool" where
  "hasStorageApi e = (case chrome e of NoChrome \<Rightarrow> False | NoStorageApi \<Rightarrow> False | _ \<Rightarrow> True)"

text \<open>\<^verbatim>\<open>typeof chrome !== "undefined" && chrome.storage && chrome.storage.sync\<close>\<close>

definition hasSync :: "env \<Rightarrow> bool" where
  "hasSync e = (case chrome e of SyncArea a \<Rightarrow> True | _ \<Rightarrow> False)"

text \<open>\<^verbatim>\<open>localStorage.getItem\<close>, \<^verbatim>\<open>setItem\<close>, \<^verbatim>\<open>removeItem\<close>.\<close>

definition localGetItem :: "string \<Rightarrow> env \<Rightarrow> string option \<times> env" where
  "localGetItem key e = (localStorage e key, e\<lparr>calls := calls e @ [LocalGet key]\<rparr>)"

definition localSetItem :: "string \<Rightarrow> string \<Rightarrow> env \<Rightarrow> env" where
  "localSetItem key text e =
     e\<lparr>localStorage := (localStorage e)(key \<mapsto> text), calls := calls e @ [LocalSet key text]\<rparr>"

definition localRemoveItem :: "string \<Rightarrow> env \<Rightarrow> env" where
  "localRemoveItem key e =
     e\<lparr>localStorage := (localStorage e)(key := None), calls := calls e @ [LocalRemove key]\<rparr>"

text \<open>
  \<^verbatim>\<open>chrome.storage.sync.set(obj, callback)\<close> and the error the callback finds, if any.
  Called where \<^verbatim>\<open>chrome.storage.sync\<close> is undefined, the expression itself throws
  \<^verbatim>\<open>TypeError\<close> (\<^verbatim>\<open>ReferenceError\<close> where \<^verbatim>\<open>chrome\<close> is); inside a promise executor that
  rejects the promise like \<^verbatim>\<open>reject(chrome.runtime.lastError)\<close> does.
\<close>

definition noSyncError :: "chrome_global \<Rightarrow> error" where
  "noSyncError c = (case c of NoChrome \<Rightarrow> ReferenceError | _ \<Rightarrow> TypeError)"

definition chromeSyncSet :: "(string \<times> jsval) list \<Rightarrow> env \<Rightarrow> error option \<times> env" where
  "chromeSyncSet kvs e =
     (case chrome e of
        SyncArea a \<Rightarrow>
          if setFails a then (Some LastError, e\<lparr>calls := calls e @ [SyncSet kvs]\<rparr>)
          else (None, e\<lparr>chrome := SyncArea (a\<lparr>items := items a ++ map_of (rev kvs)\<rparr>),
                         calls := calls e @ [SyncSet kvs]\<rparr>)
      | c \<Rightarrow> (Some (noSyncError c), e))"

text \<open>\<^verbatim>\<open>chrome.storage.sync.get([key], callback)\<close>: the error, or \<^verbatim>\<open>result[key]\<close>.\<close>

definition chromeSyncGet :: "string \<Rightarrow> env \<Rightarrow> (error + jsval option) \<times> env" where
  "chromeSyncGet key e =
     (case chrome e of
        SyncArea a \<Rightarrow>
          (if getFails a then Inl LastError else Inr (items a key),
           e\<lparr>calls := calls e @ [SyncGet [key]]\<rparr>)
      | c \<Rightarrow> (Inl (noSyncError c), e))"

definition chromeSyncRemove :: "string list \<Rightarrow> env \<Rightarrow> error option \<times> env" where
  "chromeSyncRemove keys e =
     (case chrome e of
        SyncArea a \<Rightarrow>
          if removeFails a then (Some LastError, e\<lparr>calls := calls e @ [SyncRemove keys]\<rparr>)
          else (None, e\<lparr>chrome := SyncArea (a\<lparr>items := (\<lambda>k. if k \<in> set keys then None else items a k)\<rparr>),
                         calls := calls e @ [SyncRemove keys]\<rparr>)
      | c \<Rightarrow> (Some (noSyncError c), e))"

definition MASTER_RESUME :: string where
  "MASTER_RESUME = ''resumematch_master_resume''"

subsection \<open>The storage adapter\<close>

definition saveToStorage :: "string \<Rightarrow> jsval \<Rightarrow> env \<Rightarrow> unit outcome \<times> env" where
  "saveToStorage key v e =
     (if hasStorageApi e then
        (case chromeSyncSet [(key, JStr (JSON_stringify v))] e of
           (Some err, e') \<Rightarrow> (Rejected err, e')
         | (None, e') \<Rightarrow> (Resolved (), e'))
      else (Resolved (), localSetItem key (JSON_stringify v) e))"

text \<open>
  In the extension branch \<^verbatim>\<open>JSON.parse(value)\<close> runs inside the callback of
  \<^verbatim>\<open>chrome.storage.sync.get\<close>: when it throws, neither \<^verbatim>\<open>resolve\<close> nor \<^verbatim>\<open>reject\<close> is
  reached and the promise stays pending. A stored value that is not a string is
  converted to one first.
\<close>

definition getFromStorage :: "string \<Rightarrow> env \<Rightarrow> jsval outcome \<times> env" where
  "getFromStorage key e =
     (if hasStorageApi e then
        (case chromeSyncGet key e of
           (Inl err, e') \<Rightarrow> (Rejected err, e')
         | (Inr None, e') \<Rightarrow> (Resolved JNull, e')
         | (Inr (Some v), e') \<Rightarrow>
             if truthy v then
               (case JSON_parse (jsToString v) of
                  None \<Rightarrow> (Pending, e')
                | Some r \<Rightarrow> (Resolved r, e'))
             else (Resolved JNull, e'))
      else
        (case localGetItem key e of
           (None, e') \<Rightarrow> (Resolved JNull, e')
         | (Some text, e') \<Rightarrow>
             if text \<noteq> [] then
               (case JSON_parse text of
                  None \<Rightarrow> (Rejected SyntaxError, e')
                | Some r \<Rightarrow> (Resolved r, e'))
             else (Resolved JNull, e')))"

definition removeFromStorage :: "string \<Rightarrow> env \<Rightarrow> unit outcome \<times> env" where
  "removeFromStorage key e =
     (if hasStorageApi e then
        (case chromeSyncRemove [key] e of
           (Some err, e') \<Rightarrow> (Rejected err, e')
         | (None, e') \<Rightarrow> (Resolved (), e'))
      else (Resolved (), localRemoveItem key e))"

subsection \<open>The master resume\<close>

text \<open>
  \<^verbatim>\<open>setMasterResume\<close>: the local write, then the write to the synchronized store when
  there is one, inside \<^verbatim>\<open>try\<close>/\<^verbatim>\<open>catch\<close>.
\<close>

definition setMasterResume :: "jsval \<Rightarrow> env \<Rightarrow> unit outcome \<times> env" where
  "setMasterResume resume e =
     (let e1 = localSetItem MASTER_RESUME (JSON_stringify resume) e in
      if hasSync e1 then
        (case chromeSyncSet [(MASTER_RESUME, JStr (JSON_stringify resume))] e1 of
           (Some err, e2) \<Rightarrow> (Resolved (), e2)
         | (None, e2) \<Rightarrow> (Resolved (), e2))
      else (Resolved (), e1))"

text \<open>
  \<^verbatim>\<open>getMasterResume\<close>. The first block reads the synchronized store; \<open>None\<close> stands for
  leaving the block without a truthy \<^verbatim>\<open>result\<close> (store missing, read rejected and
  caught, nothing stored, stored text unreadable).
\<close>

definition getMasterResume :: "env \<Rightarrow> jsval outcome \<times> env" where
  "getMasterResume e =
     (let (result, e1) =
        (if hasSync e then
           (case chromeSyncGet MASTER_RESUME e of
              (Inl err, e') \<Rightarrow> (None, e')
            | (Inr None, e') \<Rightarrow> (None, e')
            | (Inr (Some v), e') \<Rightarrow>
                if truthy v then
                  (case v of
                     JStr text \<Rightarrow>
                       (case JSON_parse text of
                          None \<Rightarrow> (None, e')
                        | Some resume \<Rightarrow> (if truthy resume then Some resume else None, e'))
                   | _ \<Rightarrow> (Some v, e'))
                else (None, e'))
         else (None, e))
      in case result of
           Some resume \<Rightarrow> (Resolved resume, e1)
         | None \<Rightarrow>
            (case localGetItem MASTER_RESUME e1 of
               (None, e2) \<Rightarrow> (Resolved JNull, e2)
             | (Some stored, e2) \<Rightarrow>
                 if stored \<noteq> [] then
                   (case JSON_parse stored of
                      None \<Rightarrow> (Resolved JNull, e2)
                    | Some resume \<Rightarrow>
                        if hasSync e2 then (Resolved resume, snd (setMasterResume resume e2))
                        else (Resolved resume, e2))
                 else (Resolved JNull, e2)))"

section \<open>The text-generation client (client/services/gemini.ts)\<close>

text \<open>
  Modelled from the spec: the declarations of \<^verbatim>\<open>@/types\<close> (\<^verbatim>\<open>ResumeData\<close>,
  \<^verbatim>\<open>ContactInfo\<close>, \<^verbatim>\<open>Experience\<close>, \<^verbatim>\<open>Education\<close>, \<^verbatim>\<open>JobDescription\<close>, \<^verbatim>\<open>ATSScore\<close>) are not
  under src/. The records below have the fields the spec's data model lists and the
  services read and write. A field into which the services store unchecked JSON from the
  endpoint has the type of that JSON: the summary is any value, a bullet list is any
  array. Further fields of a resume (certifications and the like) are the record's
  extension part.
\<close>

record ContactInfo =
  name :: string
  email :: string
  phone :: string
  location :: string
  website :: string

record Education =
  degree :: string
  field :: string
  institution :: string
  graduationDate :: string

record Experience =
  title :: string
  company :: string
  startDate :: string
  endDate :: "string option"
  isCurrentlyWorking :: bool
  description :: "jsval list"

record ResumeData =
  contact :: ContactInfo
  summary :: jsval
  skills :: "string list"
  experience :: "Experience list"
  education :: "Education list"

record JobDescription =
  title :: string
  company :: string
  location :: string
  description :: string
  requirements :: "string list"
  skills :: "string list"
  extractedAt :: "nat option"

text \<open>A number of the runtime as far as the scores need it: not-a-number, or a value.\<close>

datatype jsnum = NaN | Num rat

record ATSScore =
  score :: jsnum
  matchPercentage :: jsnum
  keywordMatches :: "string list"
  missingKeywords :: "string list"
  improvements :: "string list"

text \<open>
  What \<^verbatim>\<open>model.generateContent(prompt)\<close> followed by \<^verbatim>\<open>result.response.text()\<close> gives:
  a failure (network, authentication, quota, blocked answer) or free text. The endpoint is
  outside the program, so its answer is an input of every operation; the prompt, which
  only the endpoint reads, is left out.
\<close>

datatype endpoint = EndpointError | ResponseText string

text \<open>\<^verbatim>\<open>initGemini\<close> throws unless a client exists already or the API key is set.\<close>

definition initGemini :: "bool \<Rightarrow> error + unit" where
  "initGemini configured =
     (if configured then Inr ()
      else Inl (Error ''Gemini API key not configured. Set VITE_GOOGLE_GEMINI_API_KEY in .env''))"

subsection \<open>Reading fields of the parsed answer\<close>

text \<open>\<^verbatim>\<open>(v || dflt).trim()\<close>: a truthy value that is not a string has no \<^verbatim>\<open>trim\<close>.\<close>

definition trimmedOr :: "jsval option \<Rightarrow> string \<Rightarrow> error + string" where
  "trimmedOr v dflt =
     (case v of
        None \<Rightarrow> Inr (trim dflt)
      | Some (JStr s) \<Rightarrow> Inr (trim (if s \<noteq> [] then s else dflt))
      | Some w \<Rightarrow> if truthy w then Inl TypeError else Inr (trim dflt))"

text \<open>\<^verbatim>\<open>xs.filter((r) => r && r.trim())\<close>: falsy entries and blank strings are dropped; a
  truthy entry that is not a string throws.\<close>

fun nonBlank :: "jsval list \<Rightarrow> error + string list" where
  "nonBlank [] = Inr []"
| "nonBlank (r # rs) =
     (if truthy r then
        (case r of
           JStr s \<Rightarrow>
             (case nonBlank rs of
                Inl e \<Rightarrow> Inl e
              | Inr ks \<Rightarrow> Inr (if trim s \<noteq> [] then s # ks else ks))
         | _ \<Rightarrow> Inl TypeError)
      else nonBlank rs)"

text \<open>\<^verbatim>\<open>Array.isArray(v) ? v.filter((r) => r && r.trim()).map((r) => r.trim()) : []\<close>\<close>

definition cleanList :: "jsval option \<Rightarrow> error + string list" where
  "cleanList v =
     (case v of
        Some (JArr xs) \<Rightarrow> (case nonBlank xs of Inl e \<Rightarrow> Inl e | Inr ks \<Rightarrow> Inr (map trim ks))
      | _ \<Rightarrow> Inr [])"

text \<open>\<^verbatim>\<open>(Array.isArray(v) ? v : []).filter((k) => k && k.trim())\<close>\<close>

definition keptList :: "jsval option \<Rightarrow> error + string list" where
  "keptList v = (case v of Some (JArr xs) \<Rightarrow> nonBlank xs | _ \<Rightarrow> Inr [])"

subsection \<open>\<^verbatim>\<open>parseJobFromHTML\<close>\<close>

text \<open>The record built from the parsed answer; reading a property of \<^verbatim>\<open>null\<close> throws.\<close>

definition jobFromParsed :: "jsval \<Rightarrow> nat \<Rightarrow> error + JobDescription" where
  "jobFromParsed parsed now =
     (if parsed = JNull then Inl TypeError
      else
       case trimmedOr (getProp parsed ''title'') ''Unknown Position'' of Inl e \<Rightarrow> Inl e | Inr t \<Rightarrow>
       case trimmedOr (getProp parsed ''company'') ''Unknown Company'' of Inl e \<Rightarrow> Inl e | Inr c \<Rightarrow>
       case trimmedOr (getProp parsed ''location'') [] of Inl e \<Rightarrow> Inl e | Inr l \<Rightarrow>
       case trimmedOr (getProp parsed ''description'') [] of Inl e \<Rightarrow> Inl e | Inr d \<Rightarrow>
       case cleanList (getProp parsed ''requirements'') of Inl e \<Rightarrow> Inl e | Inr rs \<Rightarrow>
       case cleanList (getProp parsed ''skills'') of Inl e \<Rightarrow> Inl e | Inr ss \<Rightarrow>
         Inr \<lparr>title = t, company = c, location = l, description = d,
              requirements = rs, skills = ss, extractedAt = Some now\<rparr>)"

text \<open>The value of the \<^verbatim>\<open>catch\<close> block: fixed title and company, the page's text as the
  description.\<close>

definition fallbackJob :: "string \<Rightarrow> nat \<Rightarrow> JobDescription" where
  "fallbackJob htmlContent now =
     \<lparr>title = ''Job Position'', company = ''Company'', location = [],
      description = take 2000 (trim (collapseWs (stripTags htmlContent))),
      requirements = [], skills = [], extractedAt = Some now\<rparr>"

definition parseJobFromHTML :: "bool \<Rightarrow> string \<Rightarrow> endpoint \<Rightarrow> nat \<Rightarrow> JobDescription outcome" where
  "parseJobFromHTML configured htmlContent ep now =
     (case initGemini configured of
        Inl e \<Rightarrow> Rejected e
      | Inr u \<Rightarrow>
         (case
            (case ep of
               EndpointError \<Rightarrow> Inl EndpointFailure
             | ResponseText response \<Rightarrow>
                (let text = trim response in
                 case
                   (case JSON_parse text of
                      Some p \<Rightarrow> Inr p
                    | None \<Rightarrow>
                       (case braceMatch text of
                          Some m \<Rightarrow>
                            (case JSON_parse m of
                               Some p \<Rightarrow> Inr p
                             | None \<Rightarrow> Inl (Error ''No valid JSON found in response''))
                        | None \<Rightarrow> Inl (Error ''No JSON found in response'')))
                 of Inl e \<Rightarrow> Inl e
                  | Inr parsed \<Rightarrow> jobFromParsed parsed now))
          of Inr job \<Rightarrow> Resolved job
           | Inl e \<Rightarrow> Resolved (fallbackJob htmlContent now)))"

subsection \<open>\<^verbatim>\<open>extractJobRequirements\<close>\<close>

text \<open>The call of the endpoint is outside the \<^verbatim>\<open>try\<close> block here. The parsed object is
  returned as it is, whatever its shape.\<close>

definition defaultRequirements :: "string \<Rightarrow> jsval" where
  "defaultRequirements jobDescription =
     JObj [(''title'', JStr ''Unknown Position''), (''company'', JStr ''Unknown Company''),
           (''description'', JStr jobDescription),
           (''requirements'', JArr []), (''skills'', JArr [])]"

definition extractJobRequirements :: "bool \<Rightarrow> string \<Rightarrow> endpoint \<Rightarrow> jsval outcome" where
  "extractJobRequirements configured jobDescription ep =
     (case initGemini configured of
        Inl e \<Rightarrow> Rejected e
      | Inr u \<Rightarrow>
         (case ep of
            EndpointError \<Rightarrow> Rejected EndpointFailure
          | ResponseText text \<Rightarrow>
             (case braceMatch text of
                Some m \<Rightarrow>
                  (case JSON_parse m of
                     Some p \<Rightarrow> Resolved p
                   | None \<Rightarrow> Resolved (defaultRequirements jobDescription))
              | None \<Rightarrow> Resolved (defaultRequirements jobDescription))))"

subsection \<open>\<^verbatim>\<open>tailorResumeForJob\<close>\<close>

text \<open>
  \<^verbatim>\<open>ts.find((t) => t.jobTitle?.toLowerCase() === lowered)\<close>: an entry that is \<^verbatim>\<open>null\<close>, or
  whose \<^verbatim>\<open>jobTitle\<close> is neither missing, \<^verbatim>\<open>null\<close> nor a string, throws.
\<close>

fun findTailored :: "string \<Rightarrow> jsval list \<Rightarrow> error + jsval option" where
  "findTailored lowered [] = Inr None"
| "findTailored lowered (t # ts) =
     (if t = JNull then Inl TypeError
      else
        (case getProp t ''jobTitle'' of
           None \<Rightarrow> findTailored lowered ts
         | Some JNull \<Rightarrow> findTailored lowered ts
         | Some (JStr s) \<Rightarrow>
             if toLowerCase s = lowered then Inr (Some t) else findTailored lowered ts
         | Some w \<Rightarrow> Inl TypeError))"

text \<open>One step of \<^verbatim>\<open>masterResume.experience.map\<close>: the entry with, possibly, new bullets.
  \<^verbatim>\<open>parsed.tailoredExperience?.find\<close> throws when the property is there and is not an
  array.\<close>

definition tailorExperience :: "jsval \<Rightarrow> Experience \<Rightarrow> error + Experience" where
  "tailorExperience parsed entry =
     (case
        (case getProp parsed ''tailoredExperience'' of
           None \<Rightarrow> Inr None
         | Some JNull \<Rightarrow> Inr None
         | Some (JArr ts) \<Rightarrow> findTailored (toLowerCase (Experience.title entry)) ts
         | Some w \<Rightarrow> Inl TypeError)
      of Inl e \<Rightarrow> Inl e
       | Inr tailored \<Rightarrow>
          Inr (entry\<lparr>Experience.description :=
                 (case tailored of
                    None \<Rightarrow> Experience.description entry
                  | Some t \<Rightarrow>
                     (case getProp t ''newBullets'' of
                        Some (JArr bs) \<Rightarrow> bs
                      | _ \<Rightarrow> Experience.description entry))\<rparr>))"

fun mapE :: "('a \<Rightarrow> error + 'b) \<Rightarrow> 'a list \<Rightarrow> error + 'b list" where
  "mapE f [] = Inr []"
| "mapE f (x # xs) =
     (case f x of
        Inl e \<Rightarrow> Inl e
      | Inr y \<Rightarrow> (case mapE f xs of Inl e \<Rightarrow> Inl e | Inr ys \<Rightarrow> Inr (y # ys)))"

text \<open>\<^verbatim>\<open>rs.filter((s) => masterResume.skills.includes(s))\<close>: the skills are strings, so only
  strings among them pass.\<close>

fun knownSkills :: "string list \<Rightarrow> jsval list \<Rightarrow> string list" where
  "knownSkills owned [] = []"
| "knownSkills owned (JStr s # rs) =
     (if s \<in> set owned then s # knownSkills owned rs else knownSkills owned rs)"
| "knownSkills owned (r # rs) = knownSkills owned rs"

definition tailoredFrom :: "jsval \<Rightarrow> 'a ResumeData_scheme \<Rightarrow> error + 'a ResumeData_scheme" where
  "tailoredFrom parsed masterResume =
     (if parsed = JNull then Inl TypeError
      else
        (case mapE (tailorExperience parsed) (experience masterResume) of
           Inl e \<Rightarrow> Inl e
         | Inr exps \<Rightarrow>
            Inr (masterResume
                  \<lparr>summary :=
                     (case getProp parsed ''tailoredSummary'' of
                        None \<Rightarrow> summary masterResume
                      | Some v \<Rightarrow> if truthy v then v else summary masterResume),
                   experience := exps,
                   ResumeData.skills :=
                     (case getProp parsed ''recommendedSkillsOrder'' of
                        Some (JArr rs) \<Rightarrow> knownSkills (ResumeData.skills masterResume) rs
                      | _ \<Rightarrow> ResumeData.skills masterResume)\<rparr>)))"

definition tailorResumeForJob ::
  "bool \<Rightarrow> 'a ResumeData_scheme \<Rightarrow> JobDescription \<Rightarrow> endpoint \<Rightarrow> 'a ResumeData_scheme outcome" where
  "tailorResumeForJob configured masterResume jobDescription ep =
     (case initGemini configured of
        Inl e \<Rightarrow> Rejected e
      | Inr u \<Rightarrow>
         (case
            (case ep of
               EndpointError \<Rightarrow> Inl EndpointFailure
             | ResponseText response \<Rightarrow>
                (let text = trim response in
                 case
                   (case JSON_parse text of
                      Some p \<Rightarrow> Inr p
                    | None \<Rightarrow>
                       (case braceMatch text of
                          Some m \<Rightarrow>
                            (case JSON_parse m of Some p \<Rightarrow> Inr p | None \<Rightarrow> Inl SyntaxError)
                        | None \<Rightarrow> Inl (Error ''No valid JSON in response'')))
                 of Inl e \<Rightarrow> Inl e
                  | Inr parsed \<Rightarrow> tailoredFrom parsed masterResume))
          of Inr tailoredResume \<Rightarrow> Resolved tailoredResume
           | Inl e \<Rightarrow> Resolved masterResume))"

subsection \<open>\<^verbatim>\<open>calculateATSScore\<close>\<close>

definition numOf :: "int \<Rightarrow> nat \<Rightarrow> rat" where
  "numOf m k = of_int m / 10 ^ k"

text \<open>
  The number a value is converted to where arithmetic needs one. The reading of a
  string as a number by the runtime is not modelled: it is the parameter \<open>stn\<close>.
\<close>

fun toNumber :: "(string \<Rightarrow> jsnum) \<Rightarrow> jsval \<Rightarrow> jsnum" where
  "toNumber stn JNull = Num 0"
| "toNumber stn (JBool b) = Num (if b then 1 else 0)"
| "toNumber stn (JNum m k) = Num (numOf m k)"
| "toNumber stn (JStr s) = stn s"
| "toNumber stn (JArr vs) = stn (jsToString (JArr vs))"
| "toNumber stn (JObj kvs) = NaN"

text \<open>\<^verbatim>\<open>Math.max\<close> and \<^verbatim>\<open>Math.min\<close> give \<^verbatim>\<open>NaN\<close> as soon as an argument is \<^verbatim>\<open>NaN\<close>.\<close>

fun mathMax :: "jsnum \<Rightarrow> jsnum \<Rightarrow> jsnum" where
  "mathMax (Num a) (Num b) = Num (max a b)"
| "mathMax a b = NaN"

fun mathMin :: "jsnum \<Rightarrow> jsnum \<Rightarrow> jsnum" where
  "mathMin (Num a) (Num b) = Num (min a b)"
| "mathMin a b = NaN"

text \<open>\<^verbatim>\<open>Math.min(100, Math.max(0, v || 0))\<close>\<close>

definition clampScore :: "(string \<Rightarrow> jsnum) \<Rightarrow> jsval option \<Rightarrow> jsnum" where
  "clampScore stn v =
     mathMin (Num 100)
       (mathMax (Num 0)
          (case v of
             None \<Rightarrow> Num 0
           | Some w \<Rightarrow> if truthy w then toNumber stn w else Num 0))"

text \<open>The text of the resume that the prompt and the keyword matching use.\<close>

definition resumeText :: "'a ResumeData_scheme \<Rightarrow> string" where
  "resumeText resume =
     join [CHR 0x0A]
       [name (contact resume),
        jsToString (if truthy (summary resume) then summary resume else JStr ''Professional''),
        ''Skills: '' @ join '', '' (ResumeData.skills resume),
        ''Experience: '' @
          join '' | ''
            (map (\<lambda>e. Experience.title e @ '' at '' @ Experience.company e @ '': '' @
                       join '' '' (map elemToString (Experience.description e)))
                 (experience resume)),
        ''Education: '' @
          join '' | ''
            (map (\<lambda>e. degree e @ '' in '' @ field e @ '' from '' @ institution e)
                 (education resume))]"

definition scoreFromParsed :: "(string \<Rightarrow> jsnum) \<Rightarrow> jsval \<Rightarrow> error + ATSScore" where
  "scoreFromParsed stn parsed =
     (if parsed = JNull then Inl TypeError
      else
       case keptList (getProp parsed ''matchedKeywords'') of Inl e \<Rightarrow> Inl e | Inr ks \<Rightarrow>
       case keptList (getProp parsed ''missingKeywords'') of Inl e \<Rightarrow> Inl e | Inr ms \<Rightarrow>
       case keptList (getProp parsed ''improvements'') of Inl e \<Rightarrow> Inl e | Inr is \<Rightarrow>
         Inr \<lparr>score = clampScore stn (getProp parsed ''score''),
              matchPercentage = clampScore stn (getProp parsed ''matchPercentage''),
              keywordMatches = ks, missingKeywords = ms, improvements = is\<rparr>)"

text \<open>
  The \<^verbatim>\<open>catch\<close> block: the share of the job's keywords that occur in the resume text.
  \<^verbatim>\<open>matches.length / jobKeywords.length\<close> divides by zero when the job has no keyword;
  the dividend is zero then as well, and \<^verbatim>\<open>0 / 0\<close> is \<^verbatim>\<open>NaN\<close>, which \<^verbatim>\<open>Math.round\<close> and
  \<^verbatim>\<open>Math.max\<close> pass on. Otherwise the quotient is taken exactly.
\<close>

definition matchPercent :: "nat \<Rightarrow> nat \<Rightarrow> jsnum" where
  "matchPercent matched n =
     (if n = 0 then NaN
      else Num (of_int (round (of_nat matched / of_nat n * (100 :: rat)))))"

definition fallbackScore :: "'a ResumeData_scheme \<Rightarrow> JobDescription \<Rightarrow> ATSScore" where
  "fallbackScore resume jobDescription =
     (let resumeStr = toLowerCase (resumeText resume);
          jobKeywords = map toLowerCase (JobDescription.skills jobDescription
                                          @ requirements jobDescription);
          matches = filter (\<lambda>k. includesStr resumeStr k) jobKeywords;
          percentage = matchPercent (length matches) (length jobKeywords)
      in \<lparr>score = mathMax (Num 30) percentage,
          matchPercentage = percentage,
          keywordMatches = take 5 matches,
          missingKeywords = take 5 (filter (\<lambda>k. \<not> includesStr resumeStr k) jobKeywords),
          improvements =
            [''Add more relevant keywords from the job description'',
             ''Include specific technical skills mentioned in the job posting'',
             ''Quantify achievements with metrics and numbers'']\<rparr>)"

definition calculateATSScore ::
  "(string \<Rightarrow> jsnum) \<Rightarrow> bool \<Rightarrow> 'a ResumeData_scheme \<Rightarrow> JobDescription \<Rightarrow> endpoint
     \<Rightarrow> ATSScore outcome" where
  "calculateATSScore stn configured resume jobDescription ep =
     (case initGemini configured of
        Inl e \<Rightarrow> Rejected e
      | Inr u \<Rightarrow>
         (case
            (case ep of
               EndpointError \<Rightarrow> Inl EndpointFailure
             | ResponseText response \<Rightarrow>
                (let text = trim response in
                 case
                   (case JSON_parse text of
                      Some p \<Rightarrow> Inr p
                    | None \<Rightarrow>
                       (case braceMatch text of
                          Some m \<Rightarrow>
                            (case JSON_parse m of Some p \<Rightarrow> Inr p | None \<Rightarrow> Inl SyntaxError)
                        | None \<Rightarrow> Inl (Error ''No valid JSON in response'')))
                 of Inl e \<Rightarrow> Inl e
                  | Inr parsed \<Rightarrow> scoreFromParsed stn parsed))
          of Inr result \<Rightarrow> Resolved result
           | Inl e \<Rightarrow> Resolved (fallbackScore resume jobDescription)))"

section \<open>The content script (client/extension/content.ts)\<close>

text \<open>
  What the click handler of the injected button captures: the markup, the rendered text,
  the address, the time of the click as an ISO string, and the record that
  \<^verbatim>\<open>extractJobDescriptionFromDOM\<close> (of \<^verbatim>\<open>@/utils/jobExtractor\<close>, not under src/) found in
  the page, \<^verbatim>\<open>null\<close> when it found none.
\<close>

record capture =
  pageHTML :: string
  pageText :: string
  pageURL :: string
  analyzedAt :: string
  basicJobData :: jsval

text \<open>What the user and the extension see of a click: the alerts shown and the runtime
  messages sent. The label and colour of the button are left out.\<close>

record feedback =
  alerts :: "string list"
  messages :: "string list"

definition dataToStore :: "capture \<Rightarrow> (string \<times> jsval) list" where
  "dataToStore c =
     [(''currentPageHTML'', JStr (pageHTML c)),
      (''currentPageText'', JStr (pageText c)),
      (''currentPageURL'', JStr (pageURL c)),
      (''currentPageAnalyzedAt'', JStr (analyzedAt c))]
     @ (if truthy (basicJobData c) then [(''currentJobData'', basicJobData c)] else [])"

text \<open>
  The handler: one \<^verbatim>\<open>chrome.storage.sync.set(dataToStore, ...)\<close> when the store is there;
  otherwise the promise is rejected with \<^verbatim>\<open>new Error("Chrome storage not available")\<close>.
  The \<^verbatim>\<open>catch\<close> block alerts \<^verbatim>\<open>error.message\<close>, or \<^verbatim>\<open>Unknown error\<close> for
  \<^verbatim>\<open>chrome.runtime.lastError\<close>, which is no instance of \<^verbatim>\<open>Error\<close>.
\<close>

definition clickHandler :: "capture \<Rightarrow> env \<Rightarrow> feedback \<times> env" where
  "clickHandler c e =
     (case
        (case chrome e of
           NoChrome \<Rightarrow> (Some ''chrome is not defined'', e)
         | SyncArea a \<Rightarrow>
             (case chromeSyncSet (dataToStore c) e of
                (Some err, e') \<Rightarrow> (Some ''Unknown error'', e')
              | (None, e') \<Rightarrow> (None, e'))
         | _ \<Rightarrow> (Some ''Chrome storage not available'', e))
      of (None, e') \<Rightarrow> (\<lparr>alerts = [], messages = [''openPopup'']\<rparr>, e')
       | (Some msg, e') \<Rightarrow>
           (\<lparr>alerts = [''Failed to analyze page: '' @ msg], messages = []\<rparr>, e'))"

section \<open>Earlier revisions\<close>

text \<open>
  The repository also holds the revisions of the storage module, of the content script
  and of the text-generation client that the ones above replaced. They are modelled where
  they differ in what the stores or the caller see.
\<close>

text \<open>
  \<^verbatim>\<open>getMasterResume\<close> as it was: it reads the synchronized store through
  \<^verbatim>\<open>getFromStorage\<close> wherever \<^verbatim>\<open>chrome.storage\<close> exists, and copies a local record with
  \<^verbatim>\<open>saveToStorage\<close>; \<open>localBlock_earlier\<close> is its second \<^verbatim>\<open>try\<close> block. A promise of
  \<^verbatim>\<open>getFromStorage\<close> that stays pending leaves the whole call pending.
\<close>

definition localBlock_earlier :: "env \<Rightarrow> jsval outcome \<times> env" where
  "localBlock_earlier e =
     (case localGetItem MASTER_RESUME e of
        (None, e2) \<Rightarrow> (Resolved JNull, e2)
      | (Some stored, e2) \<Rightarrow>
          if stored \<noteq> [] then
            (case JSON_parse stored of
               None \<Rightarrow> (Resolved JNull, e2)
             | Some resume \<Rightarrow>
                 if hasStorageApi e2
                 then (Resolved resume, snd (saveToStorage MASTER_RESUME resume e2))
                 else (Resolved resume, e2))
          else (Resolved JNull, e2))"

definition getMasterResume_earlier :: "env \<Rightarrow> jsval outcome \<times> env" where
  "getMasterResume_earlier e =
     (if hasStorageApi e then
        (case getFromStorage MASTER_RESUME e of
           (Pending, e1) \<Rightarrow> (Pending, e1)
         | (Rejected err, e1) \<Rightarrow> localBlock_earlier e1
         | (Resolved v, e1) \<Rightarrow> if truthy v then (Resolved v, e1) else localBlock_earlier e1)
      else localBlock_earlier e)"

text \<open>
  The click handler as it was (the listener of \<^verbatim>\<open>injectButton\<close> before the rewrite): up
  to four calls of \<^verbatim>\<open>saveToStorage\<close> in a row, one per key, the first rejection ending
  the sequence in the \<^verbatim>\<open>catch\<close> block. After the last save the handler evaluates
  \<^verbatim>\<open>chrome.runtime.sendMessage\<close>, still inside \<^verbatim>\<open>try\<close>: where there is no \<^verbatim>\<open>chrome\<close>
  global that throws \<^verbatim>\<open>ReferenceError\<close>, which the \<^verbatim>\<open>catch\<close> block answers like a failed
  save. Where the global exists it is taken to have \<^verbatim>\<open>runtime\<close>, as every content
  script has.
\<close>

fun saveAll :: "(string \<times> jsval) list \<Rightarrow> env \<Rightarrow> unit outcome \<times> env" where
  "saveAll [] e = (Resolved (), e)"
| "saveAll ((key, v) # kvs) e =
     (case saveToStorage key v e of
        (Resolved u, e') \<Rightarrow> saveAll kvs e'
      | (failed, e') \<Rightarrow> (failed, e'))"

text \<open>The keys the handler saves and the value it passes for each, in the order of the
  calls.\<close>

definition saved_earlier :: "capture \<Rightarrow> (string \<times> jsval) list" where
  "saved_earlier c =
     [(''currentPageHTML'', JStr (pageHTML c)),
      (''currentPageText'', JStr (pageText c)),
      (''currentPageURL'', JStr (pageURL c))]
     @ (if truthy (basicJobData c) then [(''currentJobData'', basicJobData c)] else [])"

definition clickHandler_earlier :: "capture \<Rightarrow> env \<Rightarrow> feedback \<times> env" where
  "clickHandler_earlier c e =
     (case saveAll (saved_earlier c) e of
        (Resolved u, e') \<Rightarrow>
          if chrome e' = NoChrome
          then (\<lparr>alerts = [''Failed to analyze page. Please try again.''], messages = []\<rparr>, e')
          else (\<lparr>alerts = [], messages = [''openPopup'']\<rparr>, e')
      | (failed, e') \<Rightarrow>
          (\<lparr>alerts = [''Failed to analyze page. Please try again.''], messages = []\<rparr>, e'))"

text \<open>
  \<^verbatim>\<open>tailorResumeForJob\<close> as it was. The endpoint is called before the \<^verbatim>\<open>try\<close> block
  begins, so its failure is the failure of the whole call; only the brace-delimited part
  of the answer is parsed. The tailored entry is looked up by
  \<^verbatim>\<open>t.originalTitle === exp.title\<close> and its \<^verbatim>\<open>newDescription\<close> is taken whenever it is
  truthy, whatever its shape. The result is therefore either the master resume itself
  (\<open>Original\<close>) or a new object with the fields of the master resume, a summary and, entry
  by entry of the experience list, a description that may be any value
  (\<open>Rebuilt summary descriptions\<close>).
\<close>

datatype tailoring_earlier = Original | Rebuilt jsval "jsval list"

fun findTailored_earlier :: "string \<Rightarrow> jsval list \<Rightarrow> error + jsval option" where
  "findTailored_earlier wanted [] = Inr None"
| "findTailored_earlier wanted (t # ts) =
     (if t = JNull then Inl TypeError
      else if getProp t ''originalTitle'' = Some (JStr wanted) then Inr (Some t)
      else findTailored_earlier wanted ts)"

definition describe_earlier :: "jsval \<Rightarrow> Experience \<Rightarrow> error + jsval" where
  "describe_earlier parsed entry =
     (case
        (case getProp parsed ''tailoredExperience'' of
           None \<Rightarrow> Inr None
         | Some JNull \<Rightarrow> Inr None
         | Some (JArr ts) \<Rightarrow> findTailored_earlier (Experience.title entry) ts
         | Some w \<Rightarrow> Inl TypeError)
      of Inl e \<Rightarrow> Inl e
       | Inr tailored \<Rightarrow>
          Inr (case tailored of
                 None \<Rightarrow> JArr (Experience.description entry)
               | Some t \<Rightarrow>
                  (case getProp t ''newDescription'' of
                     None \<Rightarrow> JArr (Experience.description entry)
                   | Some d \<Rightarrow> if truthy d then d else JArr (Experience.description entry))))"

definition tailoredFrom_earlier :: "jsval \<Rightarrow> 'a ResumeData_scheme \<Rightarrow> error + tailoring_earlier" where
  "tailoredFrom_earlier parsed masterResume =
     (if parsed = JNull then Inl TypeError
      else
        (case mapE (describe_earlier parsed) (experience masterResume) of
           Inl e \<Rightarrow> Inl e
         | Inr ds \<Rightarrow>
            Inr (Rebuilt
                   (case getProp parsed ''tailoredSummary'' of
                      None \<Rightarrow> summary masterResume
                    | Some v \<Rightarrow> if truthy v then v else summary masterResume)
                   ds)))"

definition tailorResumeForJob_earlier ::
  "bool \<Rightarrow> 'a ResumeData_scheme \<Rightarrow> JobDescription \<Rightarrow> endpoint \<Rightarrow> tailoring_earlier outcome" where
  "tailorResumeForJob_earlier configured masterResume jobDescription ep =
     (case initGemini configured of
        Inl e \<Rightarrow> Rejected e
      | Inr u \<Rightarrow>
         (case ep of
            EndpointError \<Rightarrow> Rejected EndpointFailure
          | ResponseText text \<Rightarrow>
             (case braceMatch text of
                None \<Rightarrow> Resolved Original
              | Some m \<Rightarrow>
                 (case JSON_parse m of
                    None \<Rightarrow> Resolved Original
                  | Some parsed \<Rightarrow>
                     (case tailoredFrom_earlier parsed masterResume of
                        Inl e \<Rightarrow> Resolved Original
                      | Inr tailoredResume \<Rightarrow> Resolved tailoredResume)))))"

section \<open>Notions of the specification\<close>

text \<open>
  The specification speaks of the record a store yields, of mirroring a record into the
  synchronized store, of a response without parseable JSON, of a resume keeping its
  frame, and of the 0 to 100 scale. These are its words as definitions; the theorems
  below compare the code with them.
\<close>

text \<open>What the synchronized store holds, nothing where there is no such store.\<close>

definition syncItems :: "env \<Rightarrow> string \<rightharpoonup> jsval" where
  "syncItems e = (case chrome e of SyncArea a \<Rightarrow> items a | _ \<Rightarrow> Map.empty)"

text \<open>Best-effort mirror of a resume into the synchronized store: written when the store
  is there and accepts the write, otherwise nothing changes.\<close>

definition mirrored :: "jsval \<Rightarrow> chrome_global \<Rightarrow> chrome_global" where
  "mirrored resume c =
     (case c of
        SyncArea a \<Rightarrow>
          if setFails a then c
          else SyncArea (a\<lparr>items := (items a)(MASTER_RESUME \<mapsto> JStr (JSON_stringify resume))\<rparr>)
      | _ \<Rightarrow> c)"

text \<open>The master resume the synchronized store yields: the store is there, the read does
  not error, and the stored value (decoded when it is a string) is a truthy value.\<close>

definition syncRecord :: "env \<Rightarrow> jsval option" where
  "syncRecord e =
     (case chrome e of
        SyncArea a \<Rightarrow>
          if getFails a then None
          else
            (case items a MASTER_RESUME of
               None \<Rightarrow> None
             | Some (JStr text) \<Rightarrow>
                 (case JSON_parse text of
                    None \<Rightarrow> None
                  | Some r \<Rightarrow> if truthy r then Some r else None)
             | Some v \<Rightarrow> if truthy v then Some v else None)
      | _ \<Rightarrow> None)"

text \<open>The master resume the local store yields: the stored text, decoded.\<close>

definition localRecord :: "env \<Rightarrow> jsval option" where
  "localRecord e =
     (case localStorage e MASTER_RESUME of None \<Rightarrow> None | Some text \<Rightarrow> JSON_parse text)"

text \<open>A response that yields no parseable JSON: neither the trimmed response nor its
  brace-delimited part, if it has one, can be parsed.\<close>

definition noParseableJson :: "string \<Rightarrow> bool" where
  "noParseableJson response =
     (JSON_parse (trim response) = None
      \<and> (case braceMatch (trim response) of None \<Rightarrow> True | Some m \<Rightarrow> JSON_parse m = None))"

text \<open>The job record whose every field is at its default: what \<^verbatim>\<open>parseJobFromHTML\<close>
  builds from a parsed answer that has none of the fields.\<close>

definition unknownJob :: "nat \<Rightarrow> JobDescription" where
  "unknownJob now =
     \<lparr>title = ''Unknown Position'', company = ''Unknown Company'', location = [],
      description = [], requirements = [], skills = [], extractedAt = Some now\<rparr>"




text \<open>
  A parsed answer has the shape of a job when it is not \<^verbatim>\<open>null\<close>, each of its four text
  fields is a string, missing or falsy, and every entry of its two lists is a string or
  falsy. (A field that should be a list and is not an array counts as an empty list.)
\<close>

definition textual :: "jsval option \<Rightarrow> bool" where
  "textual v = (case v of None \<Rightarrow> True | Some (JStr s) \<Rightarrow> True | Some w \<Rightarrow> \<not> truthy w)"

fun stringOrFalsy :: "jsval \<Rightarrow> bool" where
  "stringOrFalsy (JStr s) = True"
| "stringOrFalsy w = (\<not> truthy w)"

definition stringEntries :: "jsval option \<Rightarrow> bool" where
  "stringEntries v = (case v of Some (JArr xs) \<Rightarrow> list_all stringOrFalsy xs | _ \<Rightarrow> True)"

definition jobShaped :: "jsval \<Rightarrow> bool" where
  "jobShaped parsed =
     (parsed \<noteq> JNull
      \<and> textual (getProp parsed ''title'') \<and> textual (getProp parsed ''company'')
      \<and> textual (getProp parsed ''location'') \<and> textual (getProp parsed ''description'')
      \<and> stringEntries (getProp parsed ''requirements'')
      \<and> stringEntries (getProp parsed ''skills''))"

text \<open>Two experience entries for the same role: title, company and dates agree.\<close>

definition sameRole :: "Experience \<Rightarrow> Experience \<Rightarrow> bool" where
  "sameRole a b =
     (Experience.title a = Experience.title b \<and> Experience.company a = Experience.company b
      \<and> startDate a = startDate b \<and> endDate a = endDate b
      \<and> isCurrentlyWorking a = isCurrentlyWorking b)"

text \<open>A resume keeps the frame of the master resume: same contact block, same education,
  same further fields, the same roles in the same order, and no skill that the master
  resume does not list.\<close>

definition keepsFrame :: "'a ResumeData_scheme \<Rightarrow> 'a ResumeData_scheme \<Rightarrow> bool" where
  "keepsFrame master r =
     (contact r = contact master \<and> education r = education master
      \<and> ResumeData.more r = ResumeData.more master
      \<and> list_all2 sameRole (experience r) (experience master)
      \<and> set (ResumeData.skills r) \<subseteq> set (ResumeData.skills master))"

text \<open>
  A value as the runtime can hold it: the names of an object are distinct and a number has
  no trailing zero after the decimal point. Every value that \<^verbatim>\<open>JSON.parse\<close> returns or
  that a program builds is of this kind; the condition only rules out terms of the model
  that stand for no value.
\<close>

fun wfJson :: "jsval \<Rightarrow> bool"
  and wfElems :: "jsval list \<Rightarrow> bool"
  and wfMembers :: "(string \<times> jsval) list \<Rightarrow> bool" where
  "wfJson JNull = True"
| "wfJson (JBool b) = True"
| "wfJson (JNum m k) = (if k = 0 then True else m mod 10 \<noteq> 0)"
| "wfJson (JStr s) = True"
| "wfJson (JArr vs) = wfElems vs"
| "wfJson (JObj kvs) = (distinct (map fst kvs) \<and> wfMembers kvs)"
| "wfElems [] = True"
| "wfElems (v # vs) = (wfJson v \<and> wfElems vs)"
| "wfMembers [] = True"
| "wfMembers ((k, v) # kvs) = (wfJson v \<and> wfMembers kvs)"

text \<open>A text after which a number literal ends: empty, or not starting with a digit, a
  point or an exponent mark.\<close>

definition numberEnd :: "string \<Rightarrow> bool" where
  "numberEnd rest =
     (case rest of
        [] \<Rightarrow> True
      | c # cs \<Rightarrow> \<not> isDigit c \<and> c \<noteq> CHR ''.'' \<and> c \<noteq> CHR ''e'' \<and> c \<noteq> CHR ''E'')"

text \<open>The 0 to 100 scale.\<close>

definition inRange :: "jsnum \<Rightarrow> bool" where
  "inRange x = (case x of NaN \<Rightarrow> False | Num q \<Rightarrow> 0 \<le> q \<and> q \<le> 100)"

subsection \<open>Example data\<close>

definition exampleResume :: ResumeData where
  "exampleResume =
     \<lparr>contact = \<lparr>name = ''Ada Park'', email = ''ada@example.org'', phone = ''555-0100'',
                  location = ''Leeds'', website = []\<rparr>,
      summary = JStr ''Frontend engineer'',
      skills = [''React'', ''TypeScript'', ''Go''],
      experience =
        [\<lparr>Experience.title = ''Senior React Developer'', company = ''Tech Corp'',
          startDate = ''2021-03'', endDate = None, isCurrentlyWorking = True,
          description = [JStr ''Built the design system'']\<rparr>],
      education =
        [\<lparr>degree = ''BSc'', field = ''Computer Science'', institution = ''Leeds University'',
          graduationDate = ''2016-07''\<rparr>]\<rparr>"

definition exampleJob :: JobDescription where
  "exampleJob =
     \<lparr>title = ''Senior React Developer'', company = ''Tech Corp'', location = ''Remote'',
      description = ''Build user interfaces'', requirements = [''TypeScript'', ''Kubernetes''],
      skills = [''react''], extractedAt = None\<rparr>"

definition exampleJobNoKeywords :: JobDescription where
  "exampleJobNoKeywords = exampleJob\<lparr>requirements := [], JobDescription.skills := []\<rparr>"

text \<open>A resume as the stores hold it, and its serialised text.\<close>

definition exampleDocument :: jsval where
  "exampleDocument =
     JObj [(''contact'', JObj [(''name'', JStr ''Ada Park'')]),
           (''skills'', JArr [JStr ''React'', JStr ''Go''])]"

definition exampleText :: string where
  \<open>exampleText = ''{"contact":{"name":"Ada Park"},"skills":["React","Go"]}''\<close>

text \<open>The web application: no \<^verbatim>\<open>chrome\<close> global.\<close>

definition webPage :: env where
  "webPage = \<lparr>chrome = NoChrome, localStorage = Map.empty, calls = []\<rparr>"

text \<open>The web application after a resume was saved.\<close>

definition webPageStored :: env where
  "webPageStored = webPage\<lparr>localStorage := [MASTER_RESUME \<mapsto> exampleText]\<rparr>"

text \<open>The extension with a synchronized store that is empty and works, and with one whose
  every operation fails.\<close>

definition workingSync :: sync_area where
  "workingSync = \<lparr>items = Map.empty, getFails = False, setFails = False, removeFails = False\<rparr>"

definition extensionPage :: env where
  "extensionPage = \<lparr>chrome = SyncArea workingSync, localStorage = Map.empty, calls = []\<rparr>"

definition failingSync :: env where
  "failingSync =
     \<lparr>chrome = SyncArea \<lparr>items = Map.empty, getFails = True, setFails = True, removeFails = True\<rparr>,
      localStorage = Map.empty, calls = []\<rparr>"

definition exampleCapture :: capture where
  "exampleCapture =
     \<lparr>pageHTML = ''<html><body><h1>Senior React Developer</h1></body></html>'',
      pageText = ''Senior React Developer'',
      pageURL = ''https://jobs.example.org/42'',
      analyzedAt = ''2024-05-01T10:00:00.000Z'',
      basicJobData = JObj [(''title'', JStr ''Senior React Developer''),
                           (''company'', JStr ''Tech Corp'')]\<rparr>"

text \<open>An answer of the endpoint to a tailoring request, and the resume it leads to.\<close>

definition exampleTailoring :: string where
  \<open>exampleTailoring =
     ''{"tailoredSummary":"React specialist","tailoredExperience":[{"jobTitle":"senior react developer","newBullets":["Led the UI team"]}],"recommendedSkillsOrder":["Go","Rust","React"]}''\<close>

definition exampleTailored :: ResumeData where
  "exampleTailored =
     exampleResume
       \<lparr>summary := JStr ''React specialist'',
        experience :=
          [\<lparr>Experience.title = ''Senior React Developer'', company = ''Tech Corp'',
            startDate = ''2021-03'', endDate = None, isCurrentlyWorking = True,
            description = [JStr ''Led the UI team'']\<rparr>],
        ResumeData.skills := [''Go'', ''React'']\<rparr>"

section \<open>Lemmas\<close>

subsection \<open>Digits and numbers\<close>

lemma char_eq_nat: "(c = d) = ((of_char c :: nat) = of_char d)"
  by (simp add: of_char_eq_iff)

lemma of_char_lt_256: "(of_char c :: nat) < 256"
  by (metis char_of_char of_char_of mod_less_divisor zero_less_numeral)

lemma digitChar_props: "d < 10 \<Longrightarrow> isDigit (digitChar d) \<and> digitVal (digitChar d) = d"
  by (simp add: isDigit_def digitVal_def digitChar_def)

lemma isDigit_digitChar [simp]: "d < 10 \<Longrightarrow> isDigit (digitChar d)"
  by (simp add: digitChar_props)

lemma digitVal_digitChar [simp]: "d < 10 \<Longrightarrow> digitVal (digitChar d) = d"
  by (simp add: digitChar_props)

lemma digitChar_eq_zero: "d < 10 \<Longrightarrow> (digitChar d = CHR ''0'') = (d = 0)"
  by (simp add: char_eq_nat digitChar_def)

lemma showNat_digits: "c \<in> set (showNat n) \<Longrightarrow> isDigit c"
  by (induction n arbitrary: c rule: showNat.induct) (subst (asm) showNat.simps, auto split: if_splits)

lemma showNat_nonempty [simp]: "showNat n \<noteq> []"
  by (subst showNat.simps) simp

lemma showNat_hd: "0 < n \<Longrightarrow> hd (showNat n) \<noteq> CHR ''0''"
proof (induction n rule: showNat.induct)
  case (1 n)
  show ?case
  proof (cases "n < 10")
    case True
    with "1.prems" show ?thesis by (subst showNat.simps) (simp add: digitChar_eq_zero)
  next
    case False
    then have "0 < n div 10" by simp
    with "1.IH" False have "hd (showNat (n div 10)) \<noteq> CHR ''0''" by simp
    with False show ?thesis by (subst showNat.simps) simp
  qed
qed

lemma foldl_showNat:
  "foldl (\<lambda>a c. 10 * a + digitVal c) a (showNat n) = a * 10 ^ length (showNat n) + n"
proof (induction n arbitrary: a rule: showNat.induct)
  case (1 n)
  show ?case
  proof (cases "n < 10")
    case True
    then show ?thesis by (subst (1 2) showNat.simps) simp
  next
    case False
    with "1.IH" show ?thesis
      by (subst (1 2) showNat.simps) (simp add: algebra_simps)
  qed
qed

lemma length_showFrac [simp]: "length (showFrac k r) = k"
  by (induction k arbitrary: r) auto

lemma showFrac_digits: "c \<in> set (showFrac k r) \<Longrightarrow> isDigit c"
  by (induction k arbitrary: r c) auto

lemma foldl_showFrac:
  "r < 10 ^ k \<Longrightarrow> foldl (\<lambda>a c. 10 * a + digitVal c) a (showFrac k r) = a * 10 ^ k + r"
proof (induction k arbitrary: r a)
  case 0
  then show ?case by simp
next
  case (Suc k)
  then have "r div 10 < 10 ^ k" by (simp add: less_mult_imp_div_less)
  with Suc.IH show ?case by (simp add: algebra_simps)
qed

lemma readNat_show: "readNat (showNat q @ showFrac k r) = (if r < 10 ^ k then q * 10 ^ k + r else readNat (showNat q @ showFrac k r))"
  by (simp add: readNat_def foldl_showNat foldl_showFrac)

lemma takeWhile_digits:
  "(\<And>c. c \<in> set ds \<Longrightarrow> isDigit c) \<Longrightarrow> numberEnd rest \<Longrightarrow>
   takeWhile isDigit (ds @ rest) = ds \<and> dropWhile isDigit (ds @ rest) = rest"
  by (cases rest) (simp_all add: numberEnd_def takeWhile_append2 dropWhile_append2)

lemma showNat_0: "showNat 0 = ''0''"
  by (subst showNat.simps) (simp add: digitChar_def char_eq_nat)

lemma pint_showNat: "numberEnd rest \<Longrightarrow> pint (showNat q @ rest) = Some (showNat q, rest)"
proof (cases "q = 0")
  case True
  then show ?thesis by (simp add: pint_def showNat_0)
next
  case False
  assume ne: "numberEnd rest"
  obtain c cs where cs: "showNat q = c # cs" using showNat_nonempty [of q] by (cases "showNat q") auto
  from False showNat_hd [of q] cs have c0: "c \<noteq> CHR ''0''" by simp
  from cs showNat_digits [of c q] have cd: "isDigit c" by simp
  from takeWhile_digits [of "showNat q" rest] showNat_digits ne
  have tw: "takeWhile isDigit (showNat q @ rest) = showNat q" "dropWhile isDigit (showNat q @ rest) = rest"
    by blast+
  show ?thesis
    using c0 cd tw by (simp add: pint_def cs)
qed

lemma pfrac_none: "numberEnd rest \<Longrightarrow> pfrac rest = Some ([], rest)"
  by (cases rest) (simp_all add: pfrac_def numberEnd_def)

lemma pexp_none: "numberEnd rest \<Longrightarrow> pexp rest = Some (0, rest)"
  by (cases rest) (simp_all add: pexp_def numberEnd_def)

lemma pfrac_showFrac:
  "0 < k \<Longrightarrow> numberEnd rest \<Longrightarrow>
   pfrac (CHR ''.'' # showFrac k r @ rest) = Some (showFrac k r, rest)"
proof -
  assume k: "0 < k" and ne: "numberEnd rest"
  from takeWhile_digits [of "showFrac k r" rest] showFrac_digits ne
  have tw: "takeWhile isDigit (showFrac k r @ rest) = showFrac k r"
    "dropWhile isDigit (showFrac k r @ rest) = rest"
    by blast+
  have "showFrac k r \<noteq> []" using k length_showFrac [of k r] by (metis length_0_conv less_numeral_extra(3))
  then show ?thesis using tw by (simp add: pfrac_def Let_def)
qed

lemma numberEnd_dot: "\<not> numberEnd (CHR ''.'' # s)"
  by (simp add: numberEnd_def)

lemma takeWhile_digits_dot:
  "(\<And>c. c \<in> set ds \<Longrightarrow> isDigit c) \<Longrightarrow>
   takeWhile isDigit (ds @ CHR ''.'' # rest) = ds \<and> dropWhile isDigit (ds @ CHR ''.'' # rest) = CHR ''.'' # rest"
  by (simp add: takeWhile_append2 dropWhile_append2 isDigit_def)

lemma pint_showNat_dot:
  "pint (showNat q @ CHR ''.'' # rest) = Some (showNat q, CHR ''.'' # rest)"
proof (cases "q = 0")
  case True
  then show ?thesis by (simp add: pint_def showNat_0)
next
  case False
  obtain c cs where cs: "showNat q = c # cs" using showNat_nonempty [of q] by (cases "showNat q") auto
  from False showNat_hd [of q] cs have c0: "c \<noteq> CHR ''0''" by simp
  from cs showNat_digits [of c q] have cd: "isDigit c" by simp
  from takeWhile_digits_dot [of "showNat q" rest] showNat_digits
  have tw: "takeWhile isDigit (showNat q @ CHR ''.'' # rest) = showNat q"
    "dropWhile isDigit (showNat q @ CHR ''.'' # rest) = CHR ''.'' # rest"
    by blast+
  show ?thesis
    using c0 cd tw by (simp add: pint_def cs)
qed

lemma canon_id: "m mod 10 \<noteq> 0 \<Longrightarrow> canon m k = JNum m k"
  by (cases k) simp_all

lemma showNat_not_minus: "hd (showNat q) \<noteq> CHR ''-''"
proof -
  obtain c cs where cs: "showNat q = c # cs" using showNat_nonempty [of q] by (cases "showNat q") auto
  from cs showNat_digits [of c q] have "isDigit c" by simp
  then have "c \<noteq> CHR ''-''" by (auto simp: isDigit_def)
  with cs show ?thesis by simp
qed

lemma pnum_unsigned:
  assumes canonical: "k = 0 \<or> a mod 10 \<noteq> 0" and ne: "numberEnd rest"
  shows "(case pint (showNat (a div 10 ^ k) @ (if k = 0 then [] else CHR ''.'' # showFrac k (a mod 10 ^ k)) @ rest) of
           None \<Rightarrow> None
         | Some (ids, s2) \<Rightarrow>
            (case pfrac s2 of
               None \<Rightarrow> None
             | Some (fds, s3) \<Rightarrow>
                (case pexp s3 of
                   None \<Rightarrow> None
                 | Some (e, s4) \<Rightarrow>
                     Some (mkNum neg (readNat (ids @ fds)) (length fds) e, s4))))
         = Some (JNum (if neg then - int a else int a) k, rest)"
proof (cases "k = 0")
  case True
  then show ?thesis
    using ne by (simp add: pint_showNat pfrac_none pexp_none mkNum_def readNat_def foldl_showNat)
next
  case False
  with canonical have a10: "a mod 10 \<noteq> 0" by simp
  have lt: "a mod 10 ^ k < 10 ^ k" by simp
  have val: "readNat (showNat (a div 10 ^ k) @ showFrac k (a mod 10 ^ k)) = a"
    using lt by (simp add: readNat_def foldl_showNat foldl_showFrac div_mult_mod_eq)
  have c1: "int a mod 10 \<noteq> 0" using a10 by (metis of_nat_eq_0_iff of_nat_mod of_nat_numeral)
  have c2: "(- int a) mod 10 \<noteq> 0" using c1 by (metis mod_minus_eq minus_zero mod_0 add.inverse_inverse)
  show ?thesis
    using False ne c1 c2
    by (simp add: pint_showNat_dot pfrac_showFrac pexp_none val mkNum_def canon_id)
qed

lemma pnum_showNum:
  assumes canonical: "k = 0 \<or> m mod 10 \<noteq> 0" and ne: "numberEnd rest"
  shows "pnum (showNum m k @ rest) = Some (JNum m k, rest)"
proof -
  let ?a = "nat \<bar>m\<bar>"
  let ?body = "showNat (?a div 10 ^ k) @ (if k = 0 then [] else CHR ''.'' # showFrac k (?a mod 10 ^ k)) @ rest"
  have can: "k = 0 \<or> ?a mod 10 \<noteq> 0"
    using canonical by (metis abs_of_nonneg abs_ge_zero dvd_abs_iff mod_0_imp_dvd dvd_eq_mod_eq_0 int_dvd_int_iff int_nat_eq of_nat_numeral)
  have k0: "?a div 10 ^ 0 = ?a" by simp
  show ?thesis
  proof (cases "m < 0")
    case True
    have s: "showNum m k @ rest = CHR ''-'' # ?body"
      using True by (simp add: showNum_def Let_def)
    have "(if True then - int ?a else int ?a) = m" using True by simp
    with pnum_unsigned [OF can ne, of True] show ?thesis
      unfolding s by (simp add: pnum_def)
  next
    case False
    have s: "showNum m k @ rest = ?body"
      using False by (simp add: showNum_def Let_def)
    obtain c cs where cs: "?body = c # cs" "c \<noteq> CHR ''-''"
      using showNat_not_minus [of "?a div 10 ^ k"] showNat_nonempty [of "?a div 10 ^ k"]
      by (cases "showNat (?a div 10 ^ k)") auto
    have "(if False then - int ?a else int ?a) = m" using False by simp
    with pnum_unsigned [OF can ne, of False] cs show ?thesis
      unfolding s by (simp add: pnum_def)
  qed
qed

subsection \<open>String literals\<close>

lemma hexChar_props: "d < 16 \<Longrightarrow> isHex (hexChar d) \<and> hexVal (hexChar d) = d"
  by (auto simp: isHex_def hexVal_def hexChar_def isDigit_def digitVal_def digitChar_def)

lemma hex_zero: "isHex (CHR ''0'')" "hexVal (CHR ''0'') = 0"
  by (simp_all add: isHex_def hexVal_def isDigit_def digitVal_def)

lemma pstr_escChar:
  assumes "pstr t = Some (s, rest)"
  shows "pstr (escChar c @ t) = Some (c # s, rest)"
proof -
  let ?n = "of_char c :: nat"
  consider (quote) "c = CHR 0x22" | (bslash) "c = CHR 0x5C"
    | (named) "c = CHR 0x08 \<or> c = CHR 0x0C \<or> c = CHR 0x0A \<or> c = CHR 0x0D \<or> c = CHR 0x09"
    | (ctrl) "?n < 32" "c \<noteq> CHR 0x08" "c \<noteq> CHR 0x0C" "c \<noteq> CHR 0x0A" "c \<noteq> CHR 0x0D" "c \<noteq> CHR 0x09"
    | (plain) "\<not> ?n < 32" "c \<noteq> CHR 0x22" "c \<noteq> CHR 0x5C"
    by blast
  then show ?thesis
  proof cases
    case quote
    with assms show ?thesis by (simp add: escChar_def unescape_def pstr.simps)
  next
    case bslash
    with assms show ?thesis by (simp add: escChar_def unescape_def pstr.simps)
  next
    case named
    with assms show ?thesis by (auto simp: escChar_def unescape_def pstr.simps)
  next
    case ctrl
    have d: "?n div 16 < 16" "?n mod 16 < 16" using ctrl(1) by simp_all
    have ne: "c \<noteq> CHR 0x22" "c \<noteq> CHR 0x5C" using ctrl(1) by (auto simp: char_eq_nat)
    have restored: "char_of (16 * (?n div 16) + ?n mod 16) = c"
      by (simp add: char_of_char)
    show ?thesis
      using assms ctrl ne hexChar_props [OF d(1)] hexChar_props [OF d(2)] restored
      by (simp add: escChar_def hex_zero pstr.simps)
  next
    case plain
    with assms show ?thesis by (auto simp: escChar_def char_eq_nat pstr.simps)
  qed
qed

lemma pstr_escaped:
  "pstr (concat (map escChar s) @ CHR 0x22 # rest) = Some (s, rest)"
  by (induction s) (simp_all add: pstr_escChar pstr.simps)

lemma pstr_quoteStr: "pstr (tl (quoteStr s) @ rest) = Some (s, rest)"
  by (simp add: quoteStr_def pstr_escaped)

lemma quoteStr_Cons: "quoteStr s = CHR 0x22 # tl (quoteStr s)"
  by (simp add: quoteStr_def)

subsection \<open>Values: parsing what was serialised\<close>

lemma setProp_fresh: "key \<notin> fst ` set kvs \<Longrightarrow> setProp key v kvs = kvs @ [(key, v)]"
  by (induction kvs) auto

lemma foldl_setProp:
  "distinct (map fst (acc @ kvs)) \<Longrightarrow>
   foldl (\<lambda>ob (k, v). setProp k v ob) acc kvs = acc @ kvs"
proof (induction kvs arbitrary: acc)
  case Nil
  then show ?case by simp
next
  case (Cons kv kvs)
  obtain k v where kv: "kv = (k, v)" by (cases kv)
  from Cons.prems kv have fresh: "k \<notin> fst ` set acc" by auto
  from Cons.prems kv have "distinct (map fst ((acc @ [(k, v)]) @ kvs))" by auto
  from Cons.IH [OF this] fresh kv show ?case by (simp add: setProp_fresh)
qed

lemma mkObj_distinct: "distinct (map fst kvs) \<Longrightarrow> mkObj kvs = JObj kvs"
  using foldl_setProp [of "[]" kvs] by (simp add: mkObj_def)

lemma skipWs_Cons: "\<not> isJsonWs c \<Longrightarrow> skipWs (c # cs) = c # cs"
  by (simp add: skipWs_def)

lemma numberEnd_simps [simp]:
  "numberEnd []" "numberEnd (CHR '','' # s)" "numberEnd (CHR '']'' # s)" "numberEnd (CHR ''}'' # s)"
  by (simp_all add: numberEnd_def isDigit_def)

lemma showNum_start:
  "\<exists>c cs. showNum m k = c # cs \<and> (isDigit c \<or> c = CHR ''-'')"
proof (cases "m < 0")
  case True
  then show ?thesis by (simp add: showNum_def Let_def)
next
  case False
  let ?q = "if k = 0 then nat \<bar>m\<bar> else nat \<bar>m\<bar> div 10 ^ k"
  obtain c cs where cs: "showNat ?q = c # cs"
    using showNat_nonempty [of ?q] by (cases "showNat ?q") auto
  with showNat_digits [of c ?q] have "isDigit c" by simp
  with cs False show ?thesis by (auto simp: showNum_def Let_def)
qed

lemma pval_number:
  assumes "wfJson (JNum m k)" "numberEnd rest"
  shows "pval (Suc n) (showNum m k @ rest) = Some (JNum m k, rest)"
proof -
  obtain c cs where cs: "showNum m k = c # cs" "isDigit c \<or> c = CHR ''-''"
    using showNum_start by blast
  then have c: "\<not> isJsonWs c" "c \<noteq> CHR ''{''" "c \<noteq> CHR ''[''" "c \<noteq> CHR 0x22"
    "c \<noteq> CHR ''t''" "c \<noteq> CHR ''f''" "c \<noteq> CHR ''n''"
    by (auto simp: isDigit_def isJsonWs_def)
  have can: "k = 0 \<or> m mod 10 \<noteq> 0" using assms(1) by (simp split: if_splits)
  have "pnum (c # cs @ rest) = Some (JNum m k, rest)"
    using pnum_showNum [OF can assms(2)] cs by simp
  with c show ?thesis by (simp add: cs skipWs_Cons)
qed

lemma quote_not_ws: "\<not> isJsonWs (CHR 0x22)" "CHR 0x22 \<noteq> CHR ''}''" "CHR 0x22 \<noteq> CHR '']''"
  by (simp_all add: isJsonWs_def)

lemma stringify_start:
  "\<exists>c cs. JSON_stringify v = c # cs \<and> \<not> isJsonWs c \<and> c \<noteq> CHR '']'' \<and> c \<noteq> CHR ''}''"
proof (cases v)
  case (JNum m k)
  obtain c cs where "showNum m k = c # cs" "isDigit c \<or> c = CHR ''-''"
    using showNum_start by blast
  with JNum show ?thesis by (auto simp: isDigit_def isJsonWs_def)
qed (auto simp: isJsonWs_def quoteStr_def)

lemma length_stringify_pos: "0 < length (JSON_stringify v)"
  using stringify_start [of v] by auto

lemma roundtrip_readers:
  "(\<forall>n rest. wfJson v \<longrightarrow> 2 * length (JSON_stringify v) < n \<longrightarrow> numberEnd rest
       \<longrightarrow> pval n (JSON_stringify v @ rest) = Some (v, rest))"
  "(\<forall>n rest. vs \<noteq> [] \<longrightarrow> wfElems vs \<longrightarrow> 2 * length (showElems vs) \<le> n
       \<longrightarrow> pelems n (showElems vs @ rest) = Some (vs, rest))"
  "(\<forall>n rest. kvs \<noteq> [] \<longrightarrow> wfMembers kvs \<longrightarrow> 2 * length (showMembers kvs) \<le> n
       \<longrightarrow> pmembers n (showMembers kvs @ rest) = Some (kvs, rest))"
proof (induction v and vs and kvs rule: JSON_stringify_showElems_showMembers.induct)
  case 1
  show ?case
  proof (intro allI impI)
    fix n rest assume "2 * length (JSON_stringify JNull) < n"
    then obtain n' where "n = Suc n'" by (cases n) auto
    then show "pval n (JSON_stringify JNull @ rest) = Some (JNull, rest)"
      by (simp add: skipWs_def isJsonWs_def)
  qed
next
  case (2 b)
  show ?case
  proof (intro allI impI)
    fix n rest assume "2 * length (JSON_stringify (JBool b)) < n"
    then obtain n' where "n = Suc n'" by (cases n) auto
    then show "pval n (JSON_stringify (JBool b) @ rest) = Some (JBool b, rest)"
      by (simp add: skipWs_def isJsonWs_def)
  qed
next
  case (3 m k)
  show ?case
  proof (intro allI impI)
    fix n rest assume a: "wfJson (JNum m k)" "2 * length (JSON_stringify (JNum m k)) < n" "numberEnd rest"
    then obtain n' where "n = Suc n'" by (cases n) auto
    with a pval_number [of m k rest n']
    show "pval n (JSON_stringify (JNum m k) @ rest) = Some (JNum m k, rest)" by simp
  qed
next
  case (4 s)
  show ?case
  proof (intro allI impI)
    fix n rest assume "2 * length (JSON_stringify (JStr s)) < n"
    then obtain n' where "n = Suc n'" by (cases n) auto
    then show "pval n (JSON_stringify (JStr s) @ rest) = Some (JStr s, rest)"
      by (simp add: quoteStr_def skipWs_Cons quote_not_ws pstr_escaped)
  qed
next
  case (5 vs)
  show ?case
  proof (intro allI impI)
    fix n rest
    assume a: "wfJson (JArr vs)" "2 * length (JSON_stringify (JArr vs)) < n"
    then obtain n' where n: "n = Suc n'" by (cases n) auto
    show "pval n (JSON_stringify (JArr vs) @ rest) = Some (JArr vs, rest)"
    proof (cases vs)
      case Nil
      with n show ?thesis by (simp add: skipWs_def isJsonWs_def)
    next
      case (Cons w ws)
      obtain c cs where c: "JSON_stringify w = c # cs" "\<not> isJsonWs c" "c \<noteq> CHR '']''"
        using stringify_start [of w] by blast
      from a n have "2 * length (showElems vs) \<le> n'" by simp
      with "5.IH" a Cons have "pelems n' (showElems vs @ rest) = Some (vs, rest)" by simp
      with n Cons c show ?thesis
        by (simp add: skipWs_def isJsonWs_def)
    qed
  qed
next
  case (6 kvs)
  show ?case
  proof (intro allI impI)
    fix n rest
    assume a: "wfJson (JObj kvs)" "2 * length (JSON_stringify (JObj kvs)) < n"
    then obtain n' where n: "n = Suc n'" by (cases n) auto
    show "pval n (JSON_stringify (JObj kvs) @ rest) = Some (JObj kvs, rest)"
    proof (cases kvs)
      case Nil
      with n show ?thesis by (simp add: skipWs_def isJsonWs_def)
    next
      case (Cons kv kvs')
      obtain k w where kv: "kv = (k, w)" by (cases kv)
      from a n have "2 * length (showMembers kvs) \<le> n'" by simp
      with "6.IH" a Cons have "pmembers n' (showMembers kvs @ rest) = Some (kvs, rest)" by simp
      with n Cons kv a show ?thesis
        by (simp add: skipWs_def isJsonWs_def quoteStr_def mkObj_distinct)
    qed
  qed
next
  case 7
  show ?case by simp
next
  case (8 v vs)
  show ?case
  proof (intro allI impI)
    fix n rest
    assume a: "wfElems (v # vs)" "2 * length (showElems (v # vs)) \<le> n"
    let ?tail = "(if vs = [] then '']'' else CHR '','' # showElems vs) @ rest"
    have pos: "0 < length (JSON_stringify v)" by (rule length_stringify_pos)
    from a pos obtain n' where n: "n = Suc n'" by (cases n) auto
    have fuel: "2 * length (JSON_stringify v) < n'" using a(2) n by (auto split: if_splits)
    have ne: "numberEnd ?tail" by simp
    from "8.IH"(1) a(1) fuel ne
    have v: "pval n' (JSON_stringify v @ ?tail) = Some (v, ?tail)" by simp
    show "pelems n (showElems (v # vs) @ rest) = Some (v # vs, rest)"
    proof (cases "vs = []")
      case True
      with v n show ?thesis by (simp add: skipWs_def isJsonWs_def)
    next
      case False
      have "2 * length (showElems vs) \<le> n'" using a(2) n False by simp
      with "8.IH"(2) False a(1) have "pelems n' (showElems vs @ rest) = Some (vs, rest)" by simp
      with v n False show ?thesis by (simp add: skipWs_def isJsonWs_def)
    qed
  qed
next
  case 9
  show ?case by simp
next
  case (10 k v kvs)
  show ?case
  proof (intro allI impI)
    fix n rest
    assume a: "wfMembers ((k, v) # kvs)" "2 * length (showMembers ((k, v) # kvs)) \<le> n"
    let ?tail = "(if kvs = [] then ''}'' else CHR '','' # showMembers kvs) @ rest"
    from a obtain n' where n: "n = Suc n'" by (cases n) (auto simp: quoteStr_def)
    have fuel: "2 * length (JSON_stringify v) < n'"
      using a(2) n by (auto simp: quoteStr_def split: if_splits)
    have ne: "numberEnd ?tail" by simp
    from "10.IH"(1) a(1) fuel ne
    have v: "pval n' (JSON_stringify v @ ?tail) = Some (v, ?tail)" by simp
    have key: "pstr (concat (map escChar k) @ CHR 0x22 # CHR '':'' # JSON_stringify v @ ?tail)
                 = Some (k, CHR '':'' # JSON_stringify v @ ?tail)"
      by (rule pstr_escaped)
    show "pmembers n (showMembers ((k, v) # kvs) @ rest) = Some ((k, v) # kvs, rest)"
    proof (cases "kvs = []")
      case True
      with v n key show ?thesis by (simp add: skipWs_def isJsonWs_def quoteStr_def)
    next
      case False
      have "2 * length (showMembers kvs) \<le> n'" using a(2) n False by simp
      with "10.IH"(2) False a(1) have "pmembers n' (showMembers kvs @ rest) = Some (kvs, rest)" by simp
      with v n False key show ?thesis by (simp add: skipWs_def isJsonWs_def quoteStr_def)
    qed
  qed
qed

lemma JSON_roundtrip: "wfJson v \<Longrightarrow> JSON_parse (JSON_stringify v) = Some v"
proof -
  assume wf: "wfJson v"
  have "2 * length (JSON_stringify v) < Suc (2 * length (JSON_stringify v))" by simp
  with roundtrip_readers(1) [of v] wf numberEnd_simps(1)
  have "pval (Suc (2 * length (JSON_stringify v))) (JSON_stringify v @ []) = Some (v, [])"
    by blast
  then show ?thesis by (simp add: JSON_parse_def skipWs_def del: pval.simps)
qed

subsection \<open>Values: what a reader leaves and what it returns\<close>

lemma canon_JNum: "\<exists>m' k'. canon m k = JNum m' k'"
  by (induction m k rule: canon.induct) auto

lemma set_dropWhile_subset: "set (dropWhile P xs) \<subseteq> set xs"
  by (auto dest: set_dropWhileD)

lemma set_skipWs: "set (skipWs s) \<subseteq> set s"
  by (simp add: skipWs_def set_dropWhile_subset)

lemma pint_rest: "pint s = Some (ds, r) \<Longrightarrow> set r \<subseteq> set s"
  by (auto simp: pint_def split: list.splits if_splits dest: set_dropWhileD)

lemma pfrac_rest: "pfrac s = Some (ds, r) \<Longrightarrow> set r \<subseteq> set s"
  by (auto simp: pfrac_def Let_def split: list.splits if_splits dest: set_dropWhileD)

lemma pexp_rest: "pexp s = Some (e, r) \<Longrightarrow> set r \<subseteq> set s"
  by (auto simp: pexp_def Let_def split: list.splits if_splits dest: set_dropWhileD)

lemma pnum_result:
  "pnum s = Some (v, r) \<Longrightarrow> (\<exists>m k. v = JNum m k) \<and> set r \<subseteq> set s"
proof -
  assume a: "pnum s = Some (v, r)"
  obtain neg s1 where s1: "(case s of [] \<Rightarrow> (False, s) | c # r \<Rightarrow> if c = CHR ''-'' then (True, r) else (False, s)) = (neg, s1)"
    by (cases "(case s of [] \<Rightarrow> (False, s) | c # r \<Rightarrow> if c = CHR ''-'' then (True, r) else (False, s))")
  then have sub1: "set s1 \<subseteq> set s" by (auto split: list.splits if_splits)
  from a s1 obtain ids s2 fds s3 e where
    p: "pint s1 = Some (ids, s2)" "pfrac s2 = Some (fds, s3)" "pexp s3 = Some (e, r)"
       "v = mkNum neg (readNat (ids @ fds)) (length fds) e"
    by (auto simp: pnum_def split: option.splits)
  from p(1-3) sub1 have "set r \<subseteq> set s"
    by (meson pint_rest pfrac_rest pexp_rest subset_trans)
  moreover have "\<exists>m k. v = JNum m k"
    using p(4) canon_JNum by (auto simp: mkNum_def Let_def)
  ultimately show ?thesis by simp
qed

lemma pstr_rest: "pstr s = Some (str, r) \<Longrightarrow> set r \<subseteq> set s"
proof (induction s arbitrary: str r rule: length_induct)
  case (1 s)
  note IH = "1.IH" [rule_format]
  show ?case
  proof (cases s)
    case Nil
    with "1.prems" show ?thesis by (simp add: pstr.simps)
  next
    case (Cons c cs)
    consider (quote) "r = cs"
      | (uni) h1 h2 h3 h4 t y where "c = CHR 0x5C" "cs = CHR ''u'' # h1 # h2 # h3 # h4 # t"
          "pstr t = Some (y, r)"
      | (esc) e t y where "c = CHR 0x5C" "cs = e # t" "pstr t = Some (y, r)"
      | (plain) y where "pstr cs = Some (y, r)"
      using "1.prems" unfolding Cons
      by (subst (asm) pstr.simps(2))
         (auto simp del: pstr.simps split: if_splits list.splits option.splits)
    then show ?thesis
    proof cases
      case quote
      with Cons show ?thesis by auto
    next
      case uni
      from IH [of t y r] uni Cons show ?thesis by auto
    next
      case esc
      from IH [of t y r] esc Cons show ?thesis by auto
    next
      case plain
      from IH [of cs y r] plain Cons show ?thesis by auto
    qed
  qed
qed

lemma skipWs_rest: "skipWs s = c # cs \<Longrightarrow> set cs \<subseteq> set s \<and> c \<in> set s"
  using set_skipWs [of s] by auto

lemma reader_rest:
  "(\<forall>s v r. pval n s = Some (v, r) \<longrightarrow> set r \<subseteq> set s)
   \<and> (\<forall>s vs r. pelems n s = Some (vs, r) \<longrightarrow> set r \<subseteq> set s)
   \<and> (\<forall>s kvs r. pmembers n s = Some (kvs, r) \<longrightarrow> set r \<subseteq> set s)"
proof (induction n)
  case 0
  show ?case by simp
next
  case (Suc n)
  note IHv = Suc.IH [THEN conjunct1, rule_format]
  note IHe = Suc.IH [THEN conjunct2, THEN conjunct1, rule_format]
  note IHm = Suc.IH [THEN conjunct2, THEN conjunct2, rule_format]
  have v: "set r \<subseteq> set s" if a: "pval (Suc n) s = Some (v, r)" for s v r
  proof -
    from a obtain c cs where c: "skipWs s = c # cs"
      by (auto split: list.splits)
    note sub = skipWs_rest [OF c]
    consider (obj0) d where "skipWs cs = d # r"
      | (obj) kvs where "pmembers n cs = Some (kvs, r)"
      | (arr) vs where "pelems n cs = Some (vs, r)"
      | (str) x where "pstr cs = Some (x, r)"
      | (lit) "set r \<subseteq> set cs"
      | (num) "pnum (c # cs) = Some (v, r)"
      using a c
      by (auto split: if_splits list.splits option.splits prod.splits dest: in_set_dropD)
    then have "set r \<subseteq> set (c # cs)"
    proof cases
      case obj0
      with skipWs_rest [OF obj0] show ?thesis by auto
    next
      case obj
      with IHm [OF obj] show ?thesis by auto
    next
      case arr
      with IHe [OF arr] show ?thesis by auto
    next
      case str
      with pstr_rest [OF str] show ?thesis by auto
    next
      case lit
      then show ?thesis by auto
    next
      case num
      with pnum_result [OF num] show ?thesis by auto
    qed
    with sub show ?thesis by auto
  qed
  have e: "set r \<subseteq> set s" if a: "pelems (Suc n) s = Some (vs, r)" for s vs r
  proof -
    from a obtain w r1 c r2 where w: "pval n s = Some (w, r1)" "skipWs r1 = c # r2"
      by (auto split: option.splits list.splits prod.splits)
    note s1 = IHv [OF w(1)] and s2 = skipWs_rest [OF w(2)]
    consider (further) ws where "pelems n r2 = Some (ws, r)" | (finished) "r = r2"
      using a w by (auto split: if_splits option.splits prod.splits)
    then have "set r \<subseteq> set r2"
    proof cases
      case further
      from IHe [OF further] show ?thesis .
    next
      case finished
      then show ?thesis by simp
    qed
    with s1 s2 show ?thesis by blast
  qed
  have m: "set r \<subseteq> set s" if a: "pmembers (Suc n) s = Some (kvs, r)" for s kvs r
  proof -
    from a obtain q cs where q: "skipWs s = q # cs"
      by (auto split: list.splits)
    from a q obtain k r0 where k: "pstr cs = Some (k, r0)"
      by (auto split: if_splits option.splits prod.splits)
    from a q k obtain c r1 where c: "skipWs r0 = c # r1"
      by (auto split: if_splits list.splits)
    from a q k c obtain w r2 where w: "pval n r1 = Some (w, r2)"
      by (auto split: if_splits option.splits prod.splits)
    from a q k c w obtain d r3 where d: "skipWs r2 = d # r3"
      by (auto split: if_splits list.splits)
    consider (further) ws where "pmembers n r3 = Some (ws, r)" | (finished) "r = r3"
      using a q k c w d by (auto split: if_splits option.splits prod.splits)
    then have "set r \<subseteq> set r3"
    proof cases
      case further
      from IHm [OF further] show ?thesis .
    next
      case finished
      then show ?thesis by simp
    qed
    with skipWs_rest [OF q] pstr_rest [OF k] skipWs_rest [OF c] IHv [OF w] skipWs_rest [OF d]
    show ?thesis by blast
  qed
  from v e m show ?case by blast
qed

subsection \<open>Values: what is left is a suffix\<close>











subsection \<open>Values: the readers never run out of fuel\<close>







subsection \<open>Objects and braces\<close>

lemma pmembers_brace: "pmembers n s = Some (kvs, r) \<Longrightarrow> CHR ''}'' \<in> set s"
proof (induction n arbitrary: s kvs r)
  case 0
  then show ?case by simp
next
  case (Suc n)
  note a = Suc.prems
  from a obtain q cs where q: "skipWs s = q # cs"
    by (auto split: list.splits)
  from a q obtain k r0 where k: "pstr cs = Some (k, r0)"
    by (auto split: if_splits option.splits prod.splits)
  from a q k obtain c r1 where c: "skipWs r0 = c # r1"
    by (auto split: if_splits list.splits)
  from a q k c obtain w r2 where w: "pval n r1 = Some (w, r2)"
    by (auto split: if_splits option.splits prod.splits)
  from a q k c w obtain d r3 where d: "skipWs r2 = d # r3"
    by (auto split: if_splits list.splits)
  consider (further) ws where "pmembers n r3 = Some (ws, r)" | (finished) "d = CHR ''}''"
    using a q k c w d by (auto split: if_splits option.splits prod.splits)
  then have "CHR ''}'' \<in> set r2"
  proof cases
    case further
    from Suc.IH [OF further] skipWs_rest [OF d] show ?thesis by auto
  next
    case finished
    with skipWs_rest [OF d] show ?thesis by simp
  qed
  with skipWs_rest [OF q] pstr_rest [OF k] skipWs_rest [OF c]
    reader_rest [of n, THEN conjunct1, rule_format, OF w]
  show ?case by blast
qed

lemma mkObj_JObj: "\<exists>ps. mkObj kvs = JObj ps"
  by (simp add: mkObj_def)

lemma pval_object:
  assumes a: "pval n s = Some (JObj kvs, r)"
  shows "\<exists>cs. skipWs s = CHR ''{'' # cs \<and> CHR ''}'' \<in> set cs"
proof -
  from a obtain n' where n: "n = Suc n'" by (cases n) auto
  from a n obtain c cs where c: "skipWs s = c # cs"
    by (auto split: list.splits)
  have notnum: "pnum (c # cs) \<noteq> Some (JObj kvs, r)"
    using pnum_result [of "c # cs" "JObj kvs" r] by auto
  consider (empty) d where "c = CHR ''{''" "skipWs cs = d # r" "d = CHR ''}''"
    | (members) ps where "c = CHR ''{''" "pmembers n' cs = Some (ps, r)"
    using a n c notnum
    by (auto split: if_splits list.splits option.splits prod.splits)
  then show ?thesis
  proof cases
    case empty
    with c skipWs_rest [OF empty(2)] show ?thesis by auto
  next
    case members
    with c pmembers_brace [OF members(2)] show ?thesis by auto
  qed
qed

lemma dropWhile_coarser:
  "dropWhile P s = c # cs \<Longrightarrow> (\<And>x. P x \<Longrightarrow> Q x) \<Longrightarrow> \<not> Q c \<Longrightarrow> dropWhile Q s = c # cs"
  by (induction s) (auto split: if_splits)

lemma braceMatch_skipWs:
  "skipWs s = CHR ''{'' # cs \<Longrightarrow> CHR ''}'' \<in> set cs \<Longrightarrow> braceMatch s \<noteq> None"
proof -
  assume a: "skipWs s = CHR ''{'' # cs" and b: "CHR ''}'' \<in> set cs"
  have "dropWhile (\<lambda>c. c \<noteq> CHR ''{'') s = CHR ''{'' # cs"
    using a unfolding skipWs_def
    by (rule dropWhile_coarser) (auto simp: isJsonWs_def)
  with b show ?thesis by (simp add: braceMatch_def)
qed

lemma JSON_parse_object_braces: "JSON_parse s = Some (JObj kvs) \<Longrightarrow> braceMatch s \<noteq> None"
proof -
  assume "JSON_parse s = Some (JObj kvs)"
  then obtain r where "pval (Suc (2 * length s)) s = Some (JObj kvs, r)"
    by (auto simp: JSON_parse_def simp del: pval.simps split: option.splits if_splits)
  from pval_object [OF this] braceMatch_skipWs show ?thesis by blast
qed

lemma braceMatch_iff:
  "(braceMatch s \<noteq> None) = (\<exists>pre body. s = pre @ CHR ''{'' # body \<and> CHR ''}'' \<in> set body)"
proof
  assume "braceMatch s \<noteq> None"
  then obtain b body where d: "dropWhile (\<lambda>c. c \<noteq> CHR ''{'') s = b # body" "CHR ''}'' \<in> set body"
    by (auto simp: braceMatch_def split: list.splits if_splits)
  from d(1) have "b = CHR ''{''" using hd_dropWhile [of "\<lambda>c. c \<noteq> CHR ''{''" s] by auto
  with d takeWhile_dropWhile_id [of "\<lambda>c. c \<noteq> CHR ''{''" s]
  have "s = takeWhile (\<lambda>c. c \<noteq> CHR ''{'') s @ CHR ''{'' # body" by simp
  with d(2) show "\<exists>pre body. s = pre @ CHR ''{'' # body \<and> CHR ''}'' \<in> set body" by blast
next
  assume "\<exists>pre body. s = pre @ CHR ''{'' # body \<and> CHR ''}'' \<in> set body"
  then obtain pre body where s: "s = pre @ CHR ''{'' # body" and b: "CHR ''}'' \<in> set body" by blast
  have "\<exists>body'. dropWhile (\<lambda>c. c \<noteq> CHR ''{'') (pre @ CHR ''{'' # body) = CHR ''{'' # body'
              \<and> CHR ''}'' \<in> set body'"
    using b by (induction pre) auto
  with s show "braceMatch s \<noteq> None" by (auto simp: braceMatch_def)
qed

lemma trim_infix: "\<exists>a b. s = a @ trim s @ b"
proof -
  let ?t = "dropWhile isJsWs s"
  have "s = takeWhile isJsWs s @ ?t" by simp
  moreover have "?t = trim s @ rev (takeWhile isJsWs (rev ?t))"
    unfolding trim_def
    by (metis rev_append rev_rev_ident takeWhile_dropWhile_id)
  ultimately show ?thesis by metis
qed

lemma braceMatch_trim: "braceMatch s = None \<Longrightarrow> braceMatch (trim s) = None"
proof (rule ccontr)
  assume none: "braceMatch s = None" and some: "braceMatch (trim s) \<noteq> None"
  from some obtain pre body where t: "trim s = pre @ CHR ''{'' # body" "CHR ''}'' \<in> set body"
    unfolding braceMatch_iff by blast
  obtain a b where "s = a @ trim s @ b" using trim_infix by blast
  with t have "s = (a @ pre) @ CHR ''{'' # (body @ b)" "CHR ''}'' \<in> set (body @ b)" by simp_all
  then have "braceMatch s \<noteq> None" unfolding braceMatch_iff by blast
  with none show False by simp
qed

lemma getProp_not_object: "(\<And>kvs. p \<noteq> JObj kvs) \<Longrightarrow> getProp p key = None"
  by (cases p) auto

lemma trim_literals:
  "trim ''Unknown Position'' = ''Unknown Position''"
  "trim ''Unknown Company'' = ''Unknown Company''"
  "trim [] = []"
  by (simp_all add: trim_def isJsWs_def)

lemma jobFromParsed_defaults:
  "(\<And>kvs. p \<noteq> JObj kvs) \<Longrightarrow> p \<noteq> JNull \<Longrightarrow> jobFromParsed p now = Inr (unknownJob now)"
  by (simp add: jobFromParsed_def getProp_not_object trimmedOr_def cleanList_def unknownJob_def
        trim_literals)

subsection \<open>White space after a value\<close>


























subsection \<open>The brace-delimited part of an object\<close>














subsection \<open>Trimming a valid text\<close>














subsection \<open>The record built from a parsed answer\<close>






subsection \<open>Examples\<close>

lemma JSON_parse_Nil: "JSON_parse [] = None"
  by (simp add: JSON_parse_def skipWs_def)

lemma exampleText_parse: "JSON_parse exampleText = Some exampleDocument"
  unfolding exampleText_def exampleDocument_def by code_simp

lemma exampleDocument_stringify: "JSON_stringify exampleDocument = exampleText"
  unfolding exampleText_def exampleDocument_def by code_simp

lemma exampleText_nonempty: "exampleText \<noteq> []"
  by (simp add: exampleText_def)

section \<open>The master resume accessor\<close>

text \<open>
  Claim C3. \<^verbatim>\<open>setMasterResume\<close> never fails and always writes the serialised document to
  \<^verbatim>\<open>localStorage\<close>, first; the write to the synchronized store follows only when that
  store is there, and whether it is missing, fails or succeeds, the call resolves and the
  local write stays. The synchronized store ends as the best-effort mirror leaves it.
\<close>

theorem setMasterResume_local_then_mirror:
  "fst (setMasterResume resume e) = Resolved ()
   \<and> localStorage (snd (setMasterResume resume e))
       = (localStorage e)(MASTER_RESUME \<mapsto> JSON_stringify resume)
   \<and> chrome (snd (setMasterResume resume e)) = mirrored resume (chrome e)
   \<and> calls (snd (setMasterResume resume e))
       = calls e @ LocalSet MASTER_RESUME (JSON_stringify resume)
           # (if hasSync e then [SyncSet [(MASTER_RESUME, JStr (JSON_stringify resume))]] else [])"
  by (cases "chrome e")
     (simp_all add: setMasterResume_def localSetItem_def hasSync_def chromeSyncSet_def
        mirrored_def Let_def)

theorem setMasterResume_local_then_mirror_witness:
  "fst (setMasterResume exampleDocument failingSync) = Resolved ()
   \<and> localStorage (snd (setMasterResume exampleDocument failingSync)) MASTER_RESUME
       = Some exampleText
   \<and> syncItems (snd (setMasterResume exampleDocument failingSync)) MASTER_RESUME = None
   \<and> syncItems (snd (setMasterResume exampleDocument extensionPage)) MASTER_RESUME
       = Some (JStr exampleText)"
  using setMasterResume_local_then_mirror [of exampleDocument failingSync]
    setMasterResume_local_then_mirror [of exampleDocument extensionPage]
  by (simp add: failingSync_def extensionPage_def workingSync_def mirrored_def syncItems_def
        exampleDocument_stringify)

text \<open>
  The read path in the current revision. \<^verbatim>\<open>getMasterResume\<close> reads the synchronized store
  first (when there is one) and returns the record that store yields; when the store is
  missing, its read errors or it yields nothing, it reads \<^verbatim>\<open>localStorage\<close> and returns
  the record found there, after mirroring it into the synchronized store best-effort;
  with no record anywhere it returns \<^verbatim>\<open>null\<close>. It never rejects and always settles.
\<close>

theorem getMasterResume_read_path:
  "fst (getMasterResume e)
     = Resolved (case syncRecord e of
                   Some r \<Rightarrow> r
                 | None \<Rightarrow> (case localRecord e of Some r \<Rightarrow> r | None \<Rightarrow> JNull))
   \<and> chrome (snd (getMasterResume e))
       = (case syncRecord e of
            Some r \<Rightarrow> chrome e
          | None \<Rightarrow> (case localRecord e of Some r \<Rightarrow> mirrored r (chrome e) | None \<Rightarrow> chrome e))
   \<and> calls (snd (getMasterResume e))
       = calls e @ (if hasSync e then [SyncGet [MASTER_RESUME]] else [])
           @ (case syncRecord e of
                Some r \<Rightarrow> []
              | None \<Rightarrow>
                  LocalGet MASTER_RESUME
                  # (case localRecord e of
                       Some r \<Rightarrow>
                         if hasSync e
                         then [LocalSet MASTER_RESUME (JSON_stringify r),
                               SyncSet [(MASTER_RESUME, JStr (JSON_stringify r))]]
                         else []
                     | None \<Rightarrow> []))"
  by (cases "chrome e")
     (auto simp add: getMasterResume_def setMasterResume_def localSetItem_def localGetItem_def
        hasSync_def chromeSyncSet_def chromeSyncGet_def mirrored_def syncRecord_def
        localRecord_def Let_def JSON_parse_Nil
        split: option.splits jsval.splits)

theorem getMasterResume_read_path_witness:
  "fst (getMasterResume (extensionPage\<lparr>localStorage := [MASTER_RESUME \<mapsto> exampleText]\<rparr>))
     = Resolved exampleDocument
   \<and> syncItems (snd (getMasterResume
                        (extensionPage\<lparr>localStorage := [MASTER_RESUME \<mapsto> exampleText]\<rparr>)))
       MASTER_RESUME = Some (JStr exampleText)
   \<and> fst (getMasterResume (failingSync\<lparr>localStorage := [MASTER_RESUME \<mapsto> exampleText]\<rparr>))
       = Resolved exampleDocument
   \<and> fst (getMasterResume webPage) = Resolved JNull"
  using getMasterResume_read_path [of "extensionPage\<lparr>localStorage := [MASTER_RESUME \<mapsto> exampleText]\<rparr>"]
    getMasterResume_read_path [of "failingSync\<lparr>localStorage := [MASTER_RESUME \<mapsto> exampleText]\<rparr>"]
    getMasterResume_read_path [of webPage]
  by (simp add: failingSync_def extensionPage_def workingSync_def webPage_def mirrored_def
        syncItems_def syncRecord_def localRecord_def exampleText_parse exampleDocument_stringify)

text \<open>
  Claim C1 fails in the earlier revision of \<^verbatim>\<open>getMasterResume\<close>, which reads the
  synchronized store through \<^verbatim>\<open>getFromStorage\<close>. When that store holds, for the master
  resume, a text that is not JSON, the parse error is thrown inside the callback of
  \<^verbatim>\<open>chrome.storage.sync.get\<close>: the promise never settles, so the call neither falls back
  to \<^verbatim>\<open>localStorage\<close>, which holds the resume, nor returns. The current revision catches
  the error and returns the local record.
\<close>

theorem getMasterResume_earlier_never_settles:
  "fst (getMasterResume_earlier
          (extensionPage\<lparr>chrome := SyncArea (workingSync\<lparr>items := [MASTER_RESUME \<mapsto> JStr ''{broken'']\<rparr>),
                          localStorage := [MASTER_RESUME \<mapsto> exampleText]\<rparr>)) = Pending
   \<and> fst (getMasterResume
          (extensionPage\<lparr>chrome := SyncArea (workingSync\<lparr>items := [MASTER_RESUME \<mapsto> JStr ''{broken'']\<rparr>),
                          localStorage := [MASTER_RESUME \<mapsto> exampleText]\<rparr>))
       = Resolved exampleDocument"
proof -
  have bad: "JSON_parse ''{broken'' = None" by code_simp
  show ?thesis
    by (simp add: getMasterResume_earlier_def localBlock_earlier_def getMasterResume_def
          getFromStorage_def
          setMasterResume_def hasStorageApi_def hasSync_def chromeSyncGet_def chromeSyncSet_def
          localGetItem_def localSetItem_def extensionPage_def workingSync_def bad
          exampleText_parse exampleText_nonempty Let_def)
qed

text \<open>
  These are the only states in which the earlier revision does not settle: a synchronized
  store whose read succeeds and yields a truthy value that, as a text, is not JSON.
\<close>

lemma getFromStorage_pending:
  "(fst (getFromStorage key e) = Pending)
     = (\<exists>a v. chrome e = SyncArea a \<and> \<not> getFails a \<and> items a key = Some v \<and> truthy v
              \<and> JSON_parse (jsToString v) = None)"
  by (cases "chrome e")
     (auto simp: getFromStorage_def hasStorageApi_def chromeSyncGet_def localGetItem_def
           split: option.splits)

lemma localBlock_earlier_settles: "fst (localBlock_earlier e) \<noteq> Pending"
  by (simp add: localBlock_earlier_def localGetItem_def split: option.splits)

lemma getMasterResume_earlier_pending:
  "(fst (getMasterResume_earlier e) = Pending)
     = (\<exists>a v. chrome e = SyncArea a \<and> \<not> getFails a \<and> items a MASTER_RESUME = Some v
              \<and> truthy v \<and> JSON_parse (jsToString v) = None)"
proof (cases "hasStorageApi e")
  case False
  then have "\<not> (\<exists>a. chrome e = SyncArea a)" by (auto simp: hasStorageApi_def)
  with False show ?thesis
    by (auto simp: getMasterResume_earlier_def localBlock_earlier_settles)
next
  case True
  have "(fst (getMasterResume_earlier e) = Pending) = (fst (getFromStorage MASTER_RESUME e) = Pending)"
    using True
    by (cases "getFromStorage MASTER_RESUME e"; cases "fst (getFromStorage MASTER_RESUME e)")
       (auto simp: getMasterResume_earlier_def localBlock_earlier_settles)
  then show ?thesis by (simp add: getFromStorage_pending)
qed

text \<open>
  Apart from that the earlier revision follows the read path as well. Where the
  synchronized store holds the master resume as a text, which is how every writer stores
  it, and the call settles, it returns the record the synchronized store yields, or else
  the local record, which it then mirrors into the synchronized store best-effort.
\<close>

lemma localBlock_earlier_result:
  "fst (localBlock_earlier e) = Resolved (case localRecord e of Some r \<Rightarrow> r | None \<Rightarrow> JNull)
   \<and> chrome (snd (localBlock_earlier e))
       = (case localRecord e of Some r \<Rightarrow> mirrored r (chrome e) | None \<Rightarrow> chrome e)"
  by (cases "chrome e")
     (auto simp: localBlock_earlier_def localGetItem_def localRecord_def saveToStorage_def
        hasStorageApi_def chromeSyncSet_def mirrored_def JSON_parse_Nil noSyncError_def
        split: option.splits)

lemma getMasterResume_earlier_read_path:
  assumes strings: "\<forall>a v. chrome e = SyncArea a \<and> items a MASTER_RESUME = Some v \<longrightarrow> (\<exists>t. v = JStr t)"
    and settles: "fst (getMasterResume_earlier e) \<noteq> Pending"
  shows "fst (getMasterResume_earlier e)
           = Resolved (case syncRecord e of
                         Some r \<Rightarrow> r
                       | None \<Rightarrow> (case localRecord e of Some r \<Rightarrow> r | None \<Rightarrow> JNull))
         \<and> chrome (snd (getMasterResume_earlier e))
             = (case syncRecord e of
                  Some r \<Rightarrow> chrome e
                | None \<Rightarrow> (case localRecord e of Some r \<Rightarrow> mirrored r (chrome e) | None \<Rightarrow> chrome e))"
proof (cases "chrome e")
  case NoChrome
  then show ?thesis using localBlock_earlier_result [of e]
    by (simp add: getMasterResume_earlier_def hasStorageApi_def syncRecord_def)
next
  case NoStorageApi
  then show ?thesis using localBlock_earlier_result [of e]
    by (simp add: getMasterResume_earlier_def hasStorageApi_def syncRecord_def)
next
  case NoSyncArea
  then show ?thesis using localBlock_earlier_result [of e]
    by (simp add: getMasterResume_earlier_def hasStorageApi_def syncRecord_def getFromStorage_def
          chromeSyncGet_def noSyncError_def localBlock_earlier_def localGetItem_def localRecord_def
          saveToStorage_def chromeSyncSet_def mirrored_def split: option.splits)
next
  case (SyncArea a)
  let ?e1 = "e\<lparr>calls := calls e @ [SyncGet [MASTER_RESUME]]\<rparr>"
  have same: "localRecord ?e1 = localRecord e" "chrome ?e1 = chrome e"
    by (simp_all add: localRecord_def)
  note lb = localBlock_earlier_result [of ?e1, unfolded same]
  show ?thesis
  proof (cases "getFails a")
    case True
    with SyncArea lb show ?thesis
      by (simp add: getMasterResume_earlier_def hasStorageApi_def syncRecord_def
            getFromStorage_def chromeSyncGet_def)
  next
    case False
    show ?thesis
    proof (cases "items a MASTER_RESUME")
      case None
      with SyncArea False lb show ?thesis
        by (simp add: getMasterResume_earlier_def hasStorageApi_def syncRecord_def
              getFromStorage_def chromeSyncGet_def)
    next
      case (Some v)
      with strings SyncArea obtain t where v: "v = JStr t" by blast
      show ?thesis
      proof (cases "t = []")
        case True
        with SyncArea False Some v lb show ?thesis
          by (simp add: getMasterResume_earlier_def hasStorageApi_def syncRecord_def
                getFromStorage_def chromeSyncGet_def JSON_parse_Nil)
      next
        case ne: False
        show ?thesis
        proof (cases "JSON_parse t")
          case None
          with SyncArea False Some v ne have "fst (getMasterResume_earlier e) = Pending"
            by (simp add: getMasterResume_earlier_def hasStorageApi_def
                  getFromStorage_def chromeSyncGet_def)
          with settles show ?thesis by simp
        next
          case (Some r)
          with SyncArea False \<open>items a MASTER_RESUME = Some v\<close> v ne lb show ?thesis
            by (simp add: getMasterResume_earlier_def hasStorageApi_def syncRecord_def
                  getFromStorage_def chromeSyncGet_def)
        qed
      qed
    qed
  qed
qed

text \<open>
  Claim C4. With no synchronized store present, writing a resume document with
  \<^verbatim>\<open>setMasterResume\<close> and reading it back with \<^verbatim>\<open>getMasterResume\<close> returns exactly the
  document written.
\<close>

theorem master_resume_roundtrip:
  "wfJson resume \<Longrightarrow> \<not> hasSync e \<Longrightarrow>
   fst (getMasterResume (snd (setMasterResume resume e))) = Resolved resume"
  using length_stringify_pos [of resume]
  by (simp add: getMasterResume_def setMasterResume_def localSetItem_def localGetItem_def
        hasSync_def Let_def JSON_roundtrip)

theorem master_resume_roundtrip_witness:
  "wfJson exampleDocument \<and> \<not> hasSync webPage
   \<and> fst (getMasterResume (snd (setMasterResume exampleDocument webPage)))
       = Resolved exampleDocument"
proof -
  have h: "wfJson exampleDocument" "\<not> hasSync webPage"
    by (simp_all add: exampleDocument_def hasSync_def webPage_def)
  show ?thesis using h master_resume_roundtrip [of exampleDocument webPage] by simp
qed

section \<open>The storage adapter\<close>

text \<open>
  Claim C2, as stated, fails: with the synchronized store present and its operation
  reporting an error, each adapter call rejects with that error.
\<close>

theorem storage_adapter_rejects:
  "fst (saveToStorage ''k'' (JStr ''v'') failingSync) = Rejected LastError
   \<and> fst (getFromStorage ''k'' failingSync) = Rejected LastError
   \<and> fst (removeFromStorage ''k'' failingSync) = Rejected LastError"
  by (simp add: saveToStorage_def getFromStorage_def removeFromStorage_def failingSync_def
        hasStorageApi_def chromeSyncSet_def chromeSyncGet_def chromeSyncRemove_def)

text \<open>
  Claim C2, amended. Where the extension API is absent (no \<^verbatim>\<open>chrome\<close> global or no
  \<^verbatim>\<open>chrome.storage\<close>), \<^verbatim>\<open>saveToStorage\<close> and \<^verbatim>\<open>removeFromStorage\<close> fall through to
  \<^verbatim>\<open>localStorage\<close> and resolve, and \<^verbatim>\<open>getFromStorage\<close> reads \<^verbatim>\<open>localStorage\<close>: it
  resolves with the decoded value, with \<^verbatim>\<open>null\<close> when nothing is stored, and rejects
  only when the stored text is not JSON. Where the synchronized store is present and its
  operation errors, the call rejects with that error and changes neither store.
\<close>

theorem storage_adapter_fallback:
  "(\<not> hasStorageApi e \<longrightarrow>
      fst (saveToStorage key v e) = Resolved ()
      \<and> localStorage (snd (saveToStorage key v e)) = (localStorage e)(key \<mapsto> JSON_stringify v)
      \<and> fst (removeFromStorage key e) = Resolved ()
      \<and> localStorage (snd (removeFromStorage key e)) = (localStorage e)(key := None)
      \<and> fst (getFromStorage key e)
          = (case localStorage e key of
               None \<Rightarrow> Resolved JNull
             | Some text \<Rightarrow>
                 if text = [] then Resolved JNull
                 else (case JSON_parse text of
                         Some r \<Rightarrow> Resolved r
                       | None \<Rightarrow> Rejected SyntaxError)))
   \<and> (\<forall>a. chrome e = SyncArea a \<longrightarrow>
        (setFails a \<longrightarrow>
           fst (saveToStorage key v e) = Rejected LastError
           \<and> chrome (snd (saveToStorage key v e)) = chrome e
           \<and> localStorage (snd (saveToStorage key v e)) = localStorage e)
        \<and> (getFails a \<longrightarrow>
             fst (getFromStorage key e) = Rejected LastError
             \<and> chrome (snd (getFromStorage key e)) = chrome e
             \<and> localStorage (snd (getFromStorage key e)) = localStorage e)
        \<and> (removeFails a \<longrightarrow>
             fst (removeFromStorage key e) = Rejected LastError
             \<and> chrome (snd (removeFromStorage key e)) = chrome e
             \<and> localStorage (snd (removeFromStorage key e)) = localStorage e))"
  by (cases "chrome e")
     (simp_all add: saveToStorage_def getFromStorage_def removeFromStorage_def
        hasStorageApi_def chromeSyncSet_def chromeSyncGet_def chromeSyncRemove_def
        localSetItem_def localGetItem_def localRemoveItem_def split: option.splits)

theorem storage_adapter_fallback_witness:
  "\<not> hasStorageApi webPage
   \<and> fst (saveToStorage MASTER_RESUME exampleDocument webPage) = Resolved ()
   \<and> localStorage (snd (saveToStorage MASTER_RESUME exampleDocument webPage)) MASTER_RESUME
       = Some exampleText
   \<and> fst (getFromStorage MASTER_RESUME webPageStored) = Resolved exampleDocument
   \<and> fst (removeFromStorage MASTER_RESUME webPageStored) = Resolved ()
   \<and> localStorage (snd (removeFromStorage MASTER_RESUME webPageStored)) MASTER_RESUME = None
   \<and> fst (saveToStorage MASTER_RESUME exampleDocument failingSync) = Rejected LastError
   \<and> localStorage (snd (saveToStorage MASTER_RESUME exampleDocument failingSync)) MASTER_RESUME
       = None"
proof -
  have absent: "\<not> hasStorageApi webPage" "\<not> hasStorageApi webPageStored"
    by (simp_all add: hasStorageApi_def webPage_def webPageStored_def)
  have stored: "localStorage webPageStored MASTER_RESUME = Some exampleText"
    by (simp add: webPageStored_def)
  have present: "chrome failingSync
      = SyncArea \<lparr>items = Map.empty, getFails = True, setFails = True, removeFails = True\<rparr>"
    "localStorage failingSync = Map.empty"
    by (simp_all add: failingSync_def)
  show ?thesis
    using absent stored present
      storage_adapter_fallback [of webPage MASTER_RESUME exampleDocument]
      storage_adapter_fallback [of webPageStored MASTER_RESUME exampleDocument]
      storage_adapter_fallback [of failingSync MASTER_RESUME exampleDocument]
    by (simp add: exampleText_parse exampleDocument_stringify exampleText_nonempty)
qed

section \<open>The content script\<close>

text \<open>
  Claim C8, as stated, fails for the earlier revision of the click handler, which saves
  through \<^verbatim>\<open>saveToStorage\<close>. With a synchronized store it makes one \<^verbatim>\<open>set\<close> call per
  key, not one batch; with no extension API the adapter writes the capture into
  \<^verbatim>\<open>localStorage\<close>, key by key, which was empty before.
\<close>

theorem capture_earlier_key_by_key:
  "calls (snd (clickHandler_earlier exampleCapture extensionPage))
     = [SyncSet [(''currentPageHTML'', JStr (JSON_stringify (JStr (pageHTML exampleCapture))))],
        SyncSet [(''currentPageText'', JStr (JSON_stringify (JStr (pageText exampleCapture))))],
        SyncSet [(''currentPageURL'', JStr (JSON_stringify (JStr (pageURL exampleCapture))))],
        SyncSet [(''currentJobData'', JStr (JSON_stringify (basicJobData exampleCapture)))]]
   \<and> calls (snd (clickHandler_earlier exampleCapture webPage))
       = [LocalSet ''currentPageHTML'' (JSON_stringify (JStr (pageHTML exampleCapture))),
          LocalSet ''currentPageText'' (JSON_stringify (JStr (pageText exampleCapture))),
          LocalSet ''currentPageURL'' (JSON_stringify (JStr (pageURL exampleCapture))),
          LocalSet ''currentJobData'' (JSON_stringify (basicJobData exampleCapture))]
   \<and> localStorage (snd (clickHandler_earlier exampleCapture webPage)) ''currentPageText''
       = Some (JSON_stringify (JStr ''Senior React Developer''))
   \<and> localStorage webPage ''currentPageText'' = None"
  by (simp add: clickHandler_earlier_def saved_earlier_def saveToStorage_def hasStorageApi_def
        webPage_def extensionPage_def workingSync_def localSetItem_def chromeSyncSet_def
        exampleCapture_def
      del: JSON_stringify.simps)

text \<open>
  Claim C8, amended. In the current revision a capture click makes one call on the
  stores: a single \<^verbatim>\<open>chrome.storage.sync.set\<close> whose batch holds the markup, the text, the
  address and, when the page gave one, the heuristic job record. When that call succeeds
  all of them are in the synchronized store; when it reports an error none is. When the
  synchronized store is unavailable no store is touched at all, \<^verbatim>\<open>localStorage\<close>
  included, no popup is requested and the user gets an alert.

  In the earlier revision a click saves the same values (without the time) one key at a
  time through \<^verbatim>\<open>saveToStorage\<close>, each serialised. With a synchronized store that accepts
  writes this is one \<^verbatim>\<open>set\<close> call per key, after which all of them are in that store and
  the popup is requested; when the first call reports an error nothing is stored and the
  user gets an alert. Where \<^verbatim>\<open>chrome.storage\<close> is absent the values go to \<^verbatim>\<open>localStorage\<close>
  instead, and the popup is requested (with no \<^verbatim>\<open>chrome\<close> global at all, requesting it
  fails and the user gets the alert). Where \<^verbatim>\<open>chrome.storage\<close> is there without its
  \<^verbatim>\<open>sync\<close> area nothing is stored and the user gets the alert.
\<close>

theorem capture_store_calls:
  "((\<forall>a. chrome e = SyncArea a \<longrightarrow>
       calls (snd (clickHandler c e)) = calls e @ [SyncSet (dataToStore c)]
       \<and> localStorage (snd (clickHandler c e)) = localStorage e
       \<and> (\<not> setFails a \<longrightarrow>
            syncItems (snd (clickHandler c e)) ''currentPageHTML'' = Some (JStr (pageHTML c))
            \<and> syncItems (snd (clickHandler c e)) ''currentPageText'' = Some (JStr (pageText c))
            \<and> syncItems (snd (clickHandler c e)) ''currentPageURL'' = Some (JStr (pageURL c))
            \<and> (truthy (basicJobData c) \<longrightarrow>
                 syncItems (snd (clickHandler c e)) ''currentJobData'' = Some (basicJobData c))
            \<and> fst (clickHandler c e) = \<lparr>alerts = [], messages = [''openPopup'']\<rparr>)
       \<and> (setFails a \<longrightarrow>
            chrome (snd (clickHandler c e)) = chrome e
            \<and> fst (clickHandler c e)
                = \<lparr>alerts = [''Failed to analyze page: Unknown error''], messages = []\<rparr>))
   \<and> (\<not> hasSync e \<longrightarrow>
        snd (clickHandler c e) = e
        \<and> messages (fst (clickHandler c e)) = []
        \<and> alerts (fst (clickHandler c e))
            = [if chrome e = NoChrome then ''Failed to analyze page: chrome is not defined''
               else ''Failed to analyze page: Chrome storage not available'']))
   \<and> ((\<forall>a. chrome e = SyncArea a \<longrightarrow>
       localStorage (snd (clickHandler_earlier c e)) = localStorage e
       \<and> (\<not> setFails a \<longrightarrow>
            calls (snd (clickHandler_earlier c e))
              = calls e @ map (\<lambda>(k, v). SyncSet [(k, JStr (JSON_stringify v))]) (saved_earlier c)
            \<and> syncItems (snd (clickHandler_earlier c e)) ''currentPageHTML''
                = Some (JStr (JSON_stringify (JStr (pageHTML c))))
            \<and> syncItems (snd (clickHandler_earlier c e)) ''currentPageText''
                = Some (JStr (JSON_stringify (JStr (pageText c))))
            \<and> syncItems (snd (clickHandler_earlier c e)) ''currentPageURL''
                = Some (JStr (JSON_stringify (JStr (pageURL c))))
            \<and> (truthy (basicJobData c) \<longrightarrow>
                 syncItems (snd (clickHandler_earlier c e)) ''currentJobData''
                   = Some (JStr (JSON_stringify (basicJobData c))))
            \<and> fst (clickHandler_earlier c e) = \<lparr>alerts = [], messages = [''openPopup'']\<rparr>)
       \<and> (setFails a \<longrightarrow>
            calls (snd (clickHandler_earlier c e))
              = calls e @ [SyncSet [(''currentPageHTML'', JStr (JSON_stringify (JStr (pageHTML c))))]]
            \<and> chrome (snd (clickHandler_earlier c e)) = chrome e
            \<and> fst (clickHandler_earlier c e)
                = \<lparr>alerts = [''Failed to analyze page. Please try again.''], messages = []\<rparr>))
   \<and> (\<not> hasStorageApi e \<longrightarrow>
        chrome (snd (clickHandler_earlier c e)) = chrome e
        \<and> calls (snd (clickHandler_earlier c e))
            = calls e @ map (\<lambda>(k, v). LocalSet k (JSON_stringify v)) (saved_earlier c)
        \<and> localStorage (snd (clickHandler_earlier c e)) ''currentPageHTML''
            = Some (JSON_stringify (JStr (pageHTML c)))
        \<and> localStorage (snd (clickHandler_earlier c e)) ''currentPageText''
            = Some (JSON_stringify (JStr (pageText c)))
        \<and> localStorage (snd (clickHandler_earlier c e)) ''currentPageURL''
            = Some (JSON_stringify (JStr (pageURL c)))
        \<and> (truthy (basicJobData c) \<longrightarrow>
             localStorage (snd (clickHandler_earlier c e)) ''currentJobData''
               = Some (JSON_stringify (basicJobData c)))
        \<and> fst (clickHandler_earlier c e)
            = (if chrome e = NoChrome
               then \<lparr>alerts = [''Failed to analyze page. Please try again.''], messages = []\<rparr>
               else \<lparr>alerts = [], messages = [''openPopup'']\<rparr>))
   \<and> (chrome e = NoSyncArea \<longrightarrow>
        snd (clickHandler_earlier c e) = e
        \<and> fst (clickHandler_earlier c e)
            = \<lparr>alerts = [''Failed to analyze page. Please try again.''], messages = []\<rparr>))"
proof -
  have current:
    "(\<forall>a. chrome e = SyncArea a \<longrightarrow>
       calls (snd (clickHandler c e)) = calls e @ [SyncSet (dataToStore c)]
       \<and> localStorage (snd (clickHandler c e)) = localStorage e
       \<and> (\<not> setFails a \<longrightarrow>
            syncItems (snd (clickHandler c e)) ''currentPageHTML'' = Some (JStr (pageHTML c))
            \<and> syncItems (snd (clickHandler c e)) ''currentPageText'' = Some (JStr (pageText c))
            \<and> syncItems (snd (clickHandler c e)) ''currentPageURL'' = Some (JStr (pageURL c))
            \<and> (truthy (basicJobData c) \<longrightarrow>
                 syncItems (snd (clickHandler c e)) ''currentJobData'' = Some (basicJobData c))
            \<and> fst (clickHandler c e) = \<lparr>alerts = [], messages = [''openPopup'']\<rparr>)
       \<and> (setFails a \<longrightarrow>
            chrome (snd (clickHandler c e)) = chrome e
            \<and> fst (clickHandler c e)
                = \<lparr>alerts = [''Failed to analyze page: Unknown error''], messages = []\<rparr>))
   \<and> (\<not> hasSync e \<longrightarrow>
        snd (clickHandler c e) = e
        \<and> messages (fst (clickHandler c e)) = []
        \<and> alerts (fst (clickHandler c e))
            = [if chrome e = NoChrome then ''Failed to analyze page: chrome is not defined''
               else ''Failed to analyze page: Chrome storage not available''])"
    by (cases "chrome e")
       (simp_all add: clickHandler_def chromeSyncSet_def hasSync_def syncItems_def
          dataToStore_def map_add_def)
  have earlier:
    "(\<forall>a. chrome e = SyncArea a \<longrightarrow>
       localStorage (snd (clickHandler_earlier c e)) = localStorage e
       \<and> (\<not> setFails a \<longrightarrow>
            calls (snd (clickHandler_earlier c e))
              = calls e @ map (\<lambda>(k, v). SyncSet [(k, JStr (JSON_stringify v))]) (saved_earlier c)
            \<and> syncItems (snd (clickHandler_earlier c e)) ''currentPageHTML''
                = Some (JStr (JSON_stringify (JStr (pageHTML c))))
            \<and> syncItems (snd (clickHandler_earlier c e)) ''currentPageText''
                = Some (JStr (JSON_stringify (JStr (pageText c))))
            \<and> syncItems (snd (clickHandler_earlier c e)) ''currentPageURL''
                = Some (JStr (JSON_stringify (JStr (pageURL c))))
            \<and> (truthy (basicJobData c) \<longrightarrow>
                 syncItems (snd (clickHandler_earlier c e)) ''currentJobData''
                   = Some (JStr (JSON_stringify (basicJobData c))))
            \<and> fst (clickHandler_earlier c e) = \<lparr>alerts = [], messages = [''openPopup'']\<rparr>)
       \<and> (setFails a \<longrightarrow>
            calls (snd (clickHandler_earlier c e))
              = calls e @ [SyncSet [(''currentPageHTML'', JStr (JSON_stringify (JStr (pageHTML c))))]]
            \<and> chrome (snd (clickHandler_earlier c e)) = chrome e
            \<and> fst (clickHandler_earlier c e)
                = \<lparr>alerts = [''Failed to analyze page. Please try again.''], messages = []\<rparr>))
   \<and> (\<not> hasStorageApi e \<longrightarrow>
        chrome (snd (clickHandler_earlier c e)) = chrome e
        \<and> calls (snd (clickHandler_earlier c e))
            = calls e @ map (\<lambda>(k, v). LocalSet k (JSON_stringify v)) (saved_earlier c)
        \<and> localStorage (snd (clickHandler_earlier c e)) ''currentPageHTML''
            = Some (JSON_stringify (JStr (pageHTML c)))
        \<and> localStorage (snd (clickHandler_earlier c e)) ''currentPageText''
            = Some (JSON_stringify (JStr (pageText c)))
        \<and> localStorage (snd (clickHandler_earlier c e)) ''currentPageURL''
            = Some (JSON_stringify (JStr (pageURL c)))
        \<and> (truthy (basicJobData c) \<longrightarrow>
             localStorage (snd (clickHandler_earlier c e)) ''currentJobData''
               = Some (JSON_stringify (basicJobData c)))
        \<and> fst (clickHandler_earlier c e)
            = (if chrome e = NoChrome
               then \<lparr>alerts = [''Failed to analyze page. Please try again.''], messages = []\<rparr>
               else \<lparr>alerts = [], messages = [''openPopup'']\<rparr>))
   \<and> (chrome e = NoSyncArea \<longrightarrow>
        snd (clickHandler_earlier c e) = e
        \<and> fst (clickHandler_earlier c e)
            = \<lparr>alerts = [''Failed to analyze page. Please try again.''], messages = []\<rparr>)"
    by (cases "chrome e"; cases "truthy (basicJobData c)")
       (simp_all add: clickHandler_earlier_def saved_earlier_def saveToStorage_def
          hasStorageApi_def localSetItem_def chromeSyncSet_def noSyncError_def syncItems_def
          map_add_def
        del: JSON_stringify.simps)
  from current earlier show ?thesis by (rule conjI)
qed

theorem capture_store_calls_witness:
  "calls (snd (clickHandler exampleCapture extensionPage)) = [SyncSet (dataToStore exampleCapture)]
   \<and> syncItems (snd (clickHandler exampleCapture extensionPage)) ''currentJobData''
       = Some (basicJobData exampleCapture)
   \<and> syncItems (snd (clickHandler exampleCapture extensionPage)) ''currentPageURL''
       = Some (JStr ''https://jobs.example.org/42'')
   \<and> alerts (fst (clickHandler exampleCapture extensionPage)) = []
   \<and> snd (clickHandler exampleCapture (webPage\<lparr>chrome := NoSyncArea\<rparr>))
       = webPage\<lparr>chrome := NoSyncArea\<rparr>
   \<and> alerts (fst (clickHandler exampleCapture (webPage\<lparr>chrome := NoSyncArea\<rparr>)))
       = [''Failed to analyze page: Chrome storage not available'']
   \<and> length (calls (snd (clickHandler_earlier exampleCapture extensionPage))) = 4
   \<and> syncItems (snd (clickHandler_earlier exampleCapture extensionPage)) ''currentPageURL''
       = Some (JStr (JSON_stringify (JStr ''https://jobs.example.org/42'')))
   \<and> alerts (fst (clickHandler_earlier exampleCapture extensionPage)) = []
   \<and> localStorage (snd (clickHandler_earlier exampleCapture webPage)) ''currentPageURL''
       = Some (JSON_stringify (JStr ''https://jobs.example.org/42''))
   \<and> alerts (fst (clickHandler_earlier exampleCapture webPage))
       = [''Failed to analyze page. Please try again.'']
   \<and> snd (clickHandler_earlier exampleCapture (webPage\<lparr>chrome := NoSyncArea\<rparr>))
       = webPage\<lparr>chrome := NoSyncArea\<rparr>"
proof -
  have there: "chrome extensionPage = SyncArea workingSync" "\<not> setFails workingSync"
    "calls extensionPage = []" "truthy (basicJobData exampleCapture)"
    "pageURL exampleCapture = ''https://jobs.example.org/42''"
    by (simp_all add: extensionPage_def workingSync_def exampleCapture_def)
  have missing: "\<not> hasSync (webPage\<lparr>chrome := NoSyncArea\<rparr>)"
    "chrome (webPage\<lparr>chrome := NoSyncArea\<rparr>) \<noteq> NoChrome"
    "chrome (webPage\<lparr>chrome := NoSyncArea\<rparr>) = NoSyncArea"
    by (simp_all add: hasSync_def)
  have web: "\<not> hasStorageApi webPage" "chrome webPage = NoChrome"
    by (simp_all add: hasStorageApi_def webPage_def)
  have four: "length (saved_earlier exampleCapture) = 4"
    using there(4) by (simp add: saved_earlier_def)
  show ?thesis
    using there missing web four capture_store_calls [of extensionPage exampleCapture]
      capture_store_calls [of "webPage\<lparr>chrome := NoSyncArea\<rparr>" exampleCapture]
      capture_store_calls [of webPage exampleCapture]
    by (simp del: JSON_stringify.simps)
qed

section \<open>Job parsing\<close>

text \<open>
  Claim C6, as stated, fails for \<^verbatim>\<open>parseJobFromHTML\<close>: the response \<^verbatim>\<open>42\<close> has no brace
  and is valid JSON, so the direct parse succeeds and the caller receives the record with
  every field at its default (\<^verbatim>\<open>Unknown Position\<close>), not the default object of the
  \<^verbatim>\<open>catch\<close> block (\<^verbatim>\<open>Job Position\<close>, with the page text as description).
\<close>

theorem no_braces_not_fallback:
  "braceMatch ''42'' = None
   \<and> parseJobFromHTML True ''<h1>Senior React Developer</h1>'' (ResponseText ''42'') 0
       = Resolved (unknownJob 0)
   \<and> fallbackJob ''<h1>Senior React Developer</h1>'' 0
       = \<lparr>title = ''Job Position'', company = ''Company'', location = [],
          description = ''Senior React Developer'', requirements = [], skills = [],
          extractedAt = Some 0\<rparr>
   \<and> unknownJob 0 \<noteq> fallbackJob ''<h1>Senior React Developer</h1>'' 0"
  unfolding unknownJob_def by code_simp

text \<open>
  Claim C6, amended. For every response with no brace-delimited substring neither
  operation raises. \<^verbatim>\<open>extractJobRequirements\<close> returns its default object.
  \<^verbatim>\<open>parseJobFromHTML\<close> returns the default object of its \<^verbatim>\<open>catch\<close> block, unless the
  trimmed response is itself valid JSON other than \<^verbatim>\<open>null\<close> (a number, a string, a
  boolean or an array): then it returns the record with every field at its default.
\<close>

theorem no_braces_defaults:
  assumes "braceMatch response = None"
  shows "extractJobRequirements True jobDescription (ResponseText response)
           = Resolved (defaultRequirements jobDescription)
         \<and> parseJobFromHTML True htmlContent (ResponseText response) now
           = Resolved (case JSON_parse (trim response) of
                         None \<Rightarrow> fallbackJob htmlContent now
                       | Some parsed \<Rightarrow>
                           if parsed = JNull then fallbackJob htmlContent now
                           else unknownJob now)"
proof -
  have t: "braceMatch (trim response) = None" using assms by (rule braceMatch_trim)
  have e: "extractJobRequirements True jobDescription (ResponseText response)
           = Resolved (defaultRequirements jobDescription)"
    using assms by (simp add: extractJobRequirements_def initGemini_def)
  have p: "parseJobFromHTML True htmlContent (ResponseText response) now
           = Resolved (case JSON_parse (trim response) of
                         None \<Rightarrow> fallbackJob htmlContent now
                       | Some parsed \<Rightarrow>
                           if parsed = JNull then fallbackJob htmlContent now
                           else unknownJob now)"
  proof (cases "JSON_parse (trim response)")
    case None
    with t show ?thesis by (simp add: parseJobFromHTML_def initGemini_def Let_def)
  next
    case (Some parsed)
    have notobj: "parsed \<noteq> JObj kvs" for kvs
      using Some t JSON_parse_object_braces [of "trim response" kvs] by auto
    show ?thesis
    proof (cases "parsed = JNull")
      case True
      with Some show ?thesis
        by (simp add: parseJobFromHTML_def initGemini_def Let_def jobFromParsed_def)
    next
      case False
      with Some jobFromParsed_defaults [of parsed now] notobj show ?thesis
        by (simp add: parseJobFromHTML_def initGemini_def Let_def)
    qed
  qed
  from e p show ?thesis by simp
qed

theorem no_braces_defaults_witness:
  "braceMatch ''I could not find a job posting.'' = None
   \<and> extractJobRequirements True ''Build user interfaces''
         (ResponseText ''I could not find a job posting.'')
       = Resolved (defaultRequirements ''Build user interfaces'')
   \<and> parseJobFromHTML True ''<h1>Senior React Developer</h1>''
         (ResponseText ''I could not find a job posting.'') 0
       = Resolved (fallbackJob ''<h1>Senior React Developer</h1>'' 0)"
proof -
  have h: "braceMatch ''I could not find a job posting.'' = None"
    by (simp add: braceMatch_def)
  have n: "JSON_parse (trim ''I could not find a job posting.'') = None"
    by code_simp
  show ?thesis
    using h no_braces_defaults [OF h, of "''Build user interfaces''"
        "''<h1>Senior React Developer</h1>''" 0]
    by (simp add: n)
qed




text \<open>A parsed value without the shape of a job, here a title that is a number, gives the
  default object of the \<^verbatim>\<open>catch\<close> block.\<close>

lemma valid_json_wrong_shape:
  \<open>parseJobFromHTML True ''<h1>Senior React Developer</h1>'' (ResponseText ''{"title":7}'') 0
     = Resolved (fallbackJob ''<h1>Senior React Developer</h1>'' 0)
   \<and> \<not> jobShaped (JObj [(''title'', JNum 7 0)])\<close>
  unfolding fallbackJob_def by code_simp

section \<open>Tailoring\<close>

text \<open>
  Failure in the current revision. When the tailoring call fails, because the endpoint
  call errors or because its response yields no parseable JSON, \<^verbatim>\<open>tailorResumeForJob\<close>
  resolves with the master resume it was given, unchanged, and raises nothing. (The
  client must exist: \<^verbatim>\<open>initGemini\<close> runs before the endpoint is called.)
\<close>

theorem tailor_failure_returns_original:
  "ep = EndpointError \<or> (\<exists>response. ep = ResponseText response \<and> noParseableJson response)
   \<Longrightarrow> tailorResumeForJob True masterResume jobDescription ep = Resolved masterResume"
  by (auto simp: tailorResumeForJob_def initGemini_def noParseableJson_def Let_def
           split: option.splits)

theorem tailor_failure_returns_original_witness:
  "noParseableJson ''I cannot help with that.''
   \<and> tailorResumeForJob True exampleResume exampleJob EndpointError = Resolved exampleResume
   \<and> tailorResumeForJob True exampleResume exampleJob
        (ResponseText ''I cannot help with that.'') = Resolved exampleResume"
proof -
  have h: "noParseableJson ''I cannot help with that.''"
    by code_simp
  show ?thesis
    using h tailor_failure_returns_original [of EndpointError exampleResume exampleJob]
      tailor_failure_returns_original
        [of "ResponseText ''I cannot help with that.''" exampleResume exampleJob]
    by simp
qed

text \<open>
  Claim C5 fails in the earlier revision of \<^verbatim>\<open>tailorResumeForJob\<close>: the endpoint is
  called before the \<^verbatim>\<open>try\<close> block begins, so an endpoint error is not caught. The call
  rejects with that error instead of returning the master resume, which the current
  revision returns on the same input.
\<close>

theorem tailor_earlier_endpoint_error_rejects:
  "tailorResumeForJob_earlier True exampleResume exampleJob EndpointError
     = Rejected EndpointFailure
   \<and> tailorResumeForJob True exampleResume exampleJob EndpointError = Resolved exampleResume"
  by (simp add: tailorResumeForJob_earlier_def tailorResumeForJob_def initGemini_def)

text \<open>
  The earlier revision rejects on an endpoint error whatever the resume and the job. Its
  other failure, an answer without parseable JSON, does return the master resume; and an
  answer that parses is used as it is.
\<close>

lemma tailor_earlier_rejects:
  "tailorResumeForJob_earlier True masterResume jobDescription EndpointError
     = Rejected EndpointFailure"
  by (simp add: tailorResumeForJob_earlier_def initGemini_def)

lemma tailor_earlier_unparseable:
  "(case braceMatch text of None \<Rightarrow> True | Some m \<Rightarrow> JSON_parse m = None) \<Longrightarrow>
   tailorResumeForJob_earlier True masterResume jobDescription (ResponseText text)
     = Resolved Original"
  by (simp add: tailorResumeForJob_earlier_def initGemini_def split: option.splits)

lemma tailor_earlier_example:
  \<open>tailorResumeForJob_earlier True exampleResume exampleJob
     (ResponseText ''Here: {"tailoredSummary":"React specialist","tailoredExperience":[{"originalTitle":"Senior React Developer","newDescription":"Led the UI team"}]}'')
     = Resolved (Rebuilt (JStr ''React specialist'') [JStr ''Led the UI team''])\<close>
  unfolding exampleResume_def exampleJob_def by code_simp

lemma tailorExperience_sameRole: "tailorExperience parsed x = Inr y \<Longrightarrow> sameRole y x"
  by (auto simp: tailorExperience_def sameRole_def split: sum.splits)

lemma mapE_all2: "mapE f xs = Inr ys \<Longrightarrow> list_all2 (\<lambda>y x. f x = Inr y) ys xs"
  by (induction xs arbitrary: ys) (auto split: sum.splits)

lemma knownSkills_subset: "set (knownSkills owned rs) \<subseteq> set owned"
  by (induction owned rs rule: knownSkills.induct) auto

lemma tailoredFrom_keepsFrame: "tailoredFrom parsed m = Inr r \<Longrightarrow> keepsFrame m r"
  by (auto simp: tailoredFrom_def keepsFrame_def
           split: if_splits sum.splits option.splits jsval.splits
           dest!: mapE_all2 elim!: list_all2_mono
           dest: tailorExperience_sameRole subsetD [OF knownSkills_subset])

lemma keepsFrame_refl: "keepsFrame m m"
  by (simp add: keepsFrame_def sameRole_def list_all2_same)

text \<open>
  Claim C10. Whatever the endpoint answers, \<^verbatim>\<open>tailorResumeForJob\<close> resolves with a resume
  that keeps the frame of the master resume: the contact block and the education list are
  those of the input, the experience entries are the same roles in the same order (title,
  company and dates kept, only the bullets possibly replaced), and every skill is one of
  the input's skills.
\<close>

theorem tailor_keeps_frame:
  "\<exists>r. tailorResumeForJob True masterResume jobDescription ep = Resolved r
       \<and> keepsFrame masterResume r"
  by (auto simp: tailorResumeForJob_def initGemini_def Let_def keepsFrame_refl
           split: endpoint.splits option.splits sum.splits
           dest: tailoredFrom_keepsFrame)

lemma exampleTailoring_result:
  "tailorResumeForJob True exampleResume exampleJob (ResponseText exampleTailoring)
     = Resolved exampleTailored"
  unfolding exampleTailoring_def exampleTailored_def exampleResume_def exampleJob_def
  by code_simp

theorem tailor_keeps_frame_witness:
  "tailorResumeForJob True exampleResume exampleJob (ResponseText exampleTailoring)
     = Resolved exampleTailored
   \<and> keepsFrame exampleResume exampleTailored"
  using tailor_keeps_frame [of exampleResume exampleJob "ResponseText exampleTailoring"]
  by (simp add: exampleTailoring_result)

section \<open>Scoring\<close>

text \<open>
  Claim C9 fails in the keyword-matching fallback: for a job whose skills and requirements
  are both empty, \<^verbatim>\<open>matches.length / jobKeywords.length\<close> is \<^verbatim>\<open>0 / 0\<close>, and both
  \<^verbatim>\<open>score\<close> and \<^verbatim>\<open>matchPercentage\<close> come out as \<^verbatim>\<open>NaN\<close>, outside the 0 to 100 scale.
\<close>

theorem ats_fallback_not_a_number:
  "calculateATSScore stn True exampleResume exampleJobNoKeywords EndpointError
     = Resolved \<lparr>score = NaN, matchPercentage = NaN, keywordMatches = [], missingKeywords = [],
                 improvements =
                   [''Add more relevant keywords from the job description'',
                    ''Include specific technical skills mentioned in the job posting'',
                    ''Quantify achievements with metrics and numbers'']\<rparr>
   \<and> \<not> inRange NaN"
  by (simp add: calculateATSScore_def initGemini_def fallbackScore_def matchPercent_def
        exampleJobNoKeywords_def exampleJob_def inRange_def)

text \<open>The same holds for every resume and every job without keywords.\<close>

lemma ats_fallback_no_keywords:
  "requirements j = [] \<Longrightarrow> JobDescription.skills j = [] \<Longrightarrow>
   score (fallbackScore r j) = NaN \<and> matchPercentage (fallbackScore r j) = NaN"
  by (simp add: fallbackScore_def matchPercent_def)

text \<open>With at least one keyword the fallback is on the scale.\<close>

lemma matchPercent_inRange: "m \<le> n \<Longrightarrow> 0 < n \<Longrightarrow> inRange (matchPercent m n)"
proof -
  assume mn: "m \<le> n" and n: "0 < n"
  let ?q = "of_nat m / of_nat n * (100 :: rat)"
  have "0 \<le> ?q" by simp
  moreover have "?q \<le> 100" using mn n by (simp add: divide_le_eq)
  ultimately have "0 \<le> round ?q" "round ?q \<le> 100"
    using round_mono [of 0 ?q] round_mono [of ?q 100] by simp_all
  then show ?thesis using n by (simp add: matchPercent_def inRange_def)
qed

lemma ats_fallback_inRange:
  "JobDescription.skills j @ requirements j \<noteq> [] \<Longrightarrow>
   inRange (score (fallbackScore r j)) \<and> inRange (matchPercentage (fallbackScore r j))"
proof -
  assume ne: "JobDescription.skills j @ requirements j \<noteq> []"
  let ?ks = "map toLowerCase (JobDescription.skills j @ requirements j)"
  let ?m = "length (filter (\<lambda>k. includesStr (toLowerCase (resumeText r)) k) ?ks)"
  have "?m \<le> length ?ks" by (rule length_filter_le)
  moreover have "0 < length ?ks" using ne by simp
  ultimately have "inRange (matchPercent ?m (length ?ks))"
    by (rule matchPercent_inRange)
  then show ?thesis
    by (auto simp: fallbackScore_def Let_def inRange_def split: jsnum.splits)
qed

text \<open>An answer whose scores are numbers, or are missing, is clamped onto the scale; one
  whose score is a string that does not read as a number is not.\<close>

lemma clampScore_inRange:
  "v = None \<or> (\<exists>w. v = Some w \<and> \<not> truthy w) \<or> (\<exists>m k. v = Some (JNum m k))
   \<Longrightarrow> inRange (clampScore stn v)"
  by (auto simp: clampScore_def inRange_def)

lemma clampScore_not_a_number:
  "stn ''high'' = NaN \<Longrightarrow> clampScore stn (Some (JStr ''high'')) = NaN"
  by (simp add: clampScore_def)

end
